theory Spec2Isabelle
  imports Complex_Main
begin

section \<open>Python text\<close>

text \<open>
  A Python \<open>str\<close> is a sequence of Unicode code points, so text is a list of code points
  and not a list of bytes: the en dash of the pattern is the single code point 8211.
  \<open>ustr\<close> writes an ASCII literal as text.
\<close>

type_synonym unicode = "nat list"

definition ord :: "char \<Rightarrow> nat" where
  "ord c = of_char c"

definition ustr :: "string \<Rightarrow> unicode" where
  "ustr s = map ord s"

definition isspace :: "nat \<Rightarrow> bool" where
  \<comment> \<open>CPython's whitespace table, shared by \<open>str.strip\<close>, \<open>str.isspace\<close> and the \<open>\s\<close> of \<open>re\<close>.\<close>
  "isspace c =
     ((9 \<le> c \<and> c \<le> 13) \<or> (28 \<le> c \<and> c \<le> 32) \<or> c = 133 \<or> c = 160 \<or> c = 5760
      \<or> (8192 \<le> c \<and> c \<le> 8202) \<or> c = 8232 \<or> c = 8233 \<or> c = 8239 \<or> c = 8287
      \<or> c = 12288)"

definition strip :: "unicode \<Rightarrow> unicode" where
  \<comment> \<open>\<open>s.strip()\<close>\<close>
  "strip s = rev (dropWhile isspace (rev (dropWhile isspace s)))"

fun split :: "nat \<Rightarrow> unicode \<Rightarrow> unicode list" where
  \<comment> \<open>\<open>s.split(sep)\<close> for a one-character separator: never the empty list\<close>
  "split sep [] = [[]]"
| "split sep (c # cs) =
     (if c = sep then [] # split sep cs
      else (case split sep cs of [] \<Rightarrow> [[c]] | l # ls \<Rightarrow> (c # l) # ls))"

fun replace :: "nat \<Rightarrow> nat \<Rightarrow> unicode \<Rightarrow> unicode" where
  \<comment> \<open>\<open>s.replace(old, new)\<close> for one-character \<open>old\<close> and \<open>new\<close>\<close>
  "replace old new [] = []"
| "replace old new (c # cs) = (if c = old then new else c) # replace old new cs"

section \<open>The part of \<open>re\<close> that the pattern uses\<close>

text \<open>
  The pattern of \<open>extract_landmarks_from_file\<close> is a sequence of single-character classes,
  each with a quantifier, and four capture groups. \<open>re.match\<close> is a backtracking matcher:
  a greedy quantifier tries the longest repetition first, a lazy one the shortest, and the
  first alternative that lets the rest of the pattern match wins. The match is anchored at
  the start of the text and need not reach its end.

  The table of decimal digits (Unicode category Nd, which \<open>\d\<close> matches on \<open>str\<close>) is a
  parameter \<open>isdecimal\<close> of the matcher.
\<close>

datatype charclass =
    AnyChar                 \<comment> \<open>\<open>.\<close>: anything but a newline\<close>
  | Space                   \<comment> \<open>\<open>\s\<close>\<close>
  | Digit                   \<comment> \<open>\<open>\d\<close>\<close>
  | Lit nat                 \<comment> \<open>a literal character\<close>
  | OneOf "nat list"        \<comment> \<open>\<open>[...]\<close>\<close>

datatype quantifier = One | Opt | Star | Plus | LazyStar | LazyPlus

datatype item =
    Bol                     \<comment> \<open>\<open>^\<close>\<close>
  | GOpen                   \<comment> \<open>\<open>(\<close> of a capture group\<close>
  | GClose                  \<comment> \<open>\<open>)\<close> of a capture group\<close>
  | Atom charclass quantifier

fun cmatch :: "(nat \<Rightarrow> bool) \<Rightarrow> charclass \<Rightarrow> nat \<Rightarrow> bool" where
  "cmatch isdecimal AnyChar c = (c \<noteq> 10)"
| "cmatch isdecimal Space c = isspace c"
| "cmatch isdecimal Digit c = isdecimal c"
| "cmatch isdecimal (Lit k) c = (c = k)"
| "cmatch isdecimal (OneOf ks) c = (c \<in> set ks)"

text \<open>
  \<open>rmatch isdecimal items s pos marks\<close> matches \<open>items\<close> against the rest \<open>s\<close> of the text,
  \<open>pos\<close> characters into it; \<open>marks\<close> holds the positions of the group boundaries passed
  so far, the latest first. It returns the boundaries of the first match in backtracking
  order, or \<open>None\<close>.
\<close>

fun rmatch :: "(nat \<Rightarrow> bool) \<Rightarrow> item list \<Rightarrow> unicode \<Rightarrow> nat \<Rightarrow> nat list \<Rightarrow> nat list option" where
  "rmatch d [] s pos marks = Some (rev marks)"
| "rmatch d (Bol # r) s pos marks = (if pos = 0 then rmatch d r s pos marks else None)"
| "rmatch d (GOpen # r) s pos marks = rmatch d r s pos (pos # marks)"
| "rmatch d (GClose # r) s pos marks = rmatch d r s pos (pos # marks)"
| "rmatch d (Atom c One # r) [] pos marks = None"
| "rmatch d (Atom c One # r) (x # xs) pos marks =
     (if cmatch d c x then rmatch d r xs (Suc pos) marks else None)"
| "rmatch d (Atom c Opt # r) [] pos marks = rmatch d r [] pos marks"
| "rmatch d (Atom c Opt # r) (x # xs) pos marks =
     (if cmatch d c x
      then (case rmatch d r xs (Suc pos) marks of
              Some m \<Rightarrow> Some m
            | None \<Rightarrow> rmatch d r (x # xs) pos marks)
      else rmatch d r (x # xs) pos marks)"
| "rmatch d (Atom c Star # r) [] pos marks = rmatch d r [] pos marks"
| "rmatch d (Atom c Star # r) (x # xs) pos marks =
     (if cmatch d c x
      then (case rmatch d (Atom c Star # r) xs (Suc pos) marks of
              Some m \<Rightarrow> Some m
            | None \<Rightarrow> rmatch d r (x # xs) pos marks)
      else rmatch d r (x # xs) pos marks)"
| "rmatch d (Atom c Plus # r) [] pos marks = None"
| "rmatch d (Atom c Plus # r) (x # xs) pos marks =
     (if cmatch d c x then rmatch d (Atom c Star # r) xs (Suc pos) marks else None)"
| "rmatch d (Atom c LazyStar # r) [] pos marks = rmatch d r [] pos marks"
| "rmatch d (Atom c LazyStar # r) (x # xs) pos marks =
     (case rmatch d r (x # xs) pos marks of
        Some m \<Rightarrow> Some m
      | None \<Rightarrow>
          (if cmatch d c x then rmatch d (Atom c LazyStar # r) xs (Suc pos) marks else None))"
| "rmatch d (Atom c LazyPlus # r) [] pos marks = None"
| "rmatch d (Atom c LazyPlus # r) (x # xs) pos marks =
     (if cmatch d c x then rmatch d (Atom c LazyStar # r) xs (Suc pos) marks else None)"

fun groups :: "unicode \<Rightarrow> nat list \<Rightarrow> unicode list" where
  \<comment> \<open>the captured substrings, from the boundaries in the order they were passed\<close>
  "groups s (b # e # marks) = take (e - b) (drop b s) # groups s marks"
| "groups s marks = []"

definition re_match :: "(nat \<Rightarrow> bool) \<Rightarrow> item list \<Rightarrow> unicode \<Rightarrow> unicode list option" where
  \<comment> \<open>\<open>re.match(pattern, s)\<close>: the groups of the match, or \<open>None\<close>\<close>
  "re_match d p s = (case rmatch d p s 0 [] of None \<Rightarrow> None | Some marks \<Rightarrow> Some (groups s marks))"

definition number :: "item list" where
  \<comment> \<open>\<open>([+-]?\d+\.?\d*)\<close>\<close>
  "number = [GOpen, Atom (OneOf [ord CHR ''+'', ord CHR ''-'']) Opt, Atom Digit Plus,
             Atom (Lit (ord CHR ''.'')) Opt, Atom Digit Star, GClose]"

definition pattern :: "item list" where
  \<comment> \<open>\<open>^(.+?)\s+\((.+?)\)\s+[\<emdash>-]\s+\(([+-]?\d+\.?\d*),\s*([+-]?\d+\.?\d*)\)\<close>, the first
      character of the class being the en dash, code point 8211\<close>
  "pattern =
     [Bol, GOpen, Atom AnyChar LazyPlus, GClose, Atom Space Plus,
      Atom (Lit (ord CHR ''('')) One, GOpen, Atom AnyChar LazyPlus, GClose,
      Atom (Lit (ord CHR '')'')) One, Atom Space Plus,
      Atom (OneOf [8211, ord CHR ''-'']) One, Atom Space Plus,
      Atom (Lit (ord CHR ''('')) One] @ number @
     [Atom (Lit (ord CHR '','')) One, Atom Space Star] @ number @
     [Atom (Lit (ord CHR '')'')) One]"

section \<open>Exceptions and the builtins of the runtime\<close>

text \<open>
  The exception classes that the program names or that its statements can raise; all of
  them derive from \<open>Exception\<close>, which is what the last handler of \<open>geocode_landmark\<close>
  catches. \<open>OtherException\<close> stands for any other such class, none of which derives from
  \<open>URLError\<close> or \<open>TimeoutError\<close>. Interrupts of the process are not modelled.
\<close>

datatype exc =
    URLError | HTTPError | TimeoutError
  | OSError | UnicodeDecodeError | JSONDecodeError
  | KeyError | IndexError | TypeError | ValueError | OverflowError | AttributeError
  | OtherException unicode

definition transient :: "exc \<Rightarrow> bool" where
  \<comment> \<open>what \<open>except (URLError, HTTPError, TimeoutError)\<close> catches\<close>
  "transient e = (e = URLError \<or> e = HTTPError \<or> e = TimeoutError)"

text \<open>
  The script computes with Python floats and leans on library tables. They are taken as a
  parameter: a value of type \<open>'f builtins\<close>, where \<open>'f\<close> stands for \<open>float\<close>. A conversion
  that can raise returns an option, \<open>None\<close> standing for the exception named with it.
\<close>

record 'f builtins =
  isdecimal :: "nat \<Rightarrow> bool"                \<comment> \<open>Unicode category Nd\<close>
  float_of_str :: "unicode \<Rightarrow> 'f option"     \<comment> \<open>\<open>float(s)\<close>; \<open>None\<close> is ValueError\<close>
  float_of_int :: "int \<Rightarrow> 'f option"         \<comment> \<open>\<open>float(n)\<close>; \<open>None\<close> is OverflowError\<close>
  float_bool :: "'f \<Rightarrow> bool"                  \<comment> \<open>\<open>bool(x)\<close>: \<open>x\<close> is not zero\<close>
  float_sub :: "'f \<Rightarrow> 'f \<Rightarrow> 'f"              \<comment> \<open>\<open>x - y\<close>\<close>
  float_abs :: "'f \<Rightarrow> 'f"                     \<comment> \<open>\<open>abs(x)\<close>\<close>
  float_format :: "'f \<Rightarrow> unicode"             \<comment> \<open>\<open>f"{x}"\<close>\<close>
  quote :: "unicode \<Rightarrow> unicode"                \<comment> \<open>\<open>urllib.parse.quote\<close>\<close>

section \<open>The extractor\<close>

type_synonym 'f landmark = "unicode \<times> unicode \<times> 'f \<times> 'f"

definition group_of :: "unicode list \<Rightarrow> nat \<Rightarrow> exc + unicode" where
  \<comment> \<open>\<open>match.group(k)\<close> for \<open>k \<ge> 1\<close>\<close>
  "group_of m k = (if 1 \<le> k \<and> k \<le> length m then Inr (m ! (k - 1)) else Inl IndexError)"

definition to_float :: "'f builtins \<Rightarrow> exc + unicode \<Rightarrow> exc + 'f" where
  \<comment> \<open>\<open>float(...)\<close> of a string whose evaluation may itself have raised\<close>
  "to_float B v =
     (case v of
        Inl e \<Rightarrow> Inl e
      | Inr s \<Rightarrow> (case float_of_str B s of None \<Rightarrow> Inl ValueError | Some x \<Rightarrow> Inr x))"

definition landmark_of_match :: "'f builtins \<Rightarrow> unicode list \<Rightarrow> exc + 'f landmark" where
  \<comment> \<open>lines 33 to 37: the tuple appended for a match\<close>
  "landmark_of_match B m =
     (case group_of m 1 of Inl e \<Rightarrow> Inl e | Inr g1 \<Rightarrow>
      (case group_of m 2 of Inl e \<Rightarrow> Inl e | Inr g2 \<Rightarrow>
       (case to_float B (group_of m 3) of Inl e \<Rightarrow> Inl e | Inr existing_lat \<Rightarrow>
        (case to_float B (group_of m 4) of Inl e \<Rightarrow> Inl e | Inr existing_lon \<Rightarrow>
           Inr (strip g1, strip g2, existing_lat, existing_lon)))))"

fun extract_loop ::
  "'f builtins \<Rightarrow> unicode list \<Rightarrow> 'f landmark list \<Rightarrow> exc + 'f landmark list" where
  \<comment> \<open>the loop of lines 29 to 37 over the lines still to read, \<open>landmarks\<close> being the list so far\<close>
  "extract_loop B [] landmarks = Inr landmarks"
| "extract_loop B (line # rest) landmarks =
     (case re_match (isdecimal B) pattern (strip line) of
        None \<Rightarrow> extract_loop B rest landmarks
      | Some m \<Rightarrow>
          (case landmark_of_match B m of
             Inl e \<Rightarrow> Inl e
           | Inr t \<Rightarrow> extract_loop B rest (landmarks @ [t])))"

definition extract_landmarks_from_file ::
  "'f builtins \<Rightarrow> (unicode \<Rightarrow> exc + unicode) \<Rightarrow> unicode \<Rightarrow> exc + 'f landmark list" where
  \<comment> \<open>\<open>fs filename\<close> is what opening and reading the file gives: its text, or the exception\<close>
  "extract_landmarks_from_file B fs filename =
     (case fs filename of
        Inl e \<Rightarrow> Inl e
      | Inr content \<Rightarrow> extract_loop B (split 10 content) [])"

section \<open>Decoded JSON\<close>

text \<open>
  What \<open>json.loads\<close> returns. An object is a dict with string keys; it is kept as an
  association list and read with \<open>map_of\<close>.
\<close>

datatype 'f json =
    JNull | JBool bool | JInt int | JFloat 'f | JStr unicode
  | JArr "'f json list" | JObj "(unicode \<times> 'f json) list"

fun truthy :: "'f builtins \<Rightarrow> 'f json \<Rightarrow> bool" where
  \<comment> \<open>\<open>bool(v)\<close>\<close>
  "truthy B JNull = False"
| "truthy B (JBool b) = b"
| "truthy B (JInt n) = (n \<noteq> 0)"
| "truthy B (JFloat x) = float_bool B x"
| "truthy B (JStr s) = (s \<noteq> [])"
| "truthy B (JArr xs) = (xs \<noteq> [])"
| "truthy B (JObj kvs) = (kvs \<noteq> [])"

fun len :: "'f json \<Rightarrow> exc + nat" where
  \<comment> \<open>\<open>len(v)\<close>\<close>
  "len (JStr s) = Inr (length s)"
| "len (JArr xs) = Inr (length xs)"
| "len (JObj kvs) = Inr (length (remdups (map fst kvs)))"
| "len v = Inl TypeError"

definition has_candidates :: "'f builtins \<Rightarrow> 'f json \<Rightarrow> exc + bool" where
  \<comment> \<open>the condition \<open>data and len(data) > 0\<close>\<close>
  "has_candidates B data =
     (if truthy B data
      then (case len data of Inl e \<Rightarrow> Inl e | Inr n \<Rightarrow> Inr (0 < n))
      else Inr False)"

fun item0 :: "'f json \<Rightarrow> exc + 'f json" where
  \<comment> \<open>\<open>v[0]\<close>\<close>
  "item0 (JArr []) = Inl IndexError"
| "item0 (JArr (x # xs)) = Inr x"
| "item0 (JStr []) = Inl IndexError"
| "item0 (JStr (c # cs)) = Inr (JStr [c])"
| "item0 (JObj kvs) = Inl KeyError"
| "item0 v = Inl TypeError"

fun subscript :: "'f json \<Rightarrow> unicode \<Rightarrow> exc + 'f json" where
  \<comment> \<open>\<open>v[key]\<close> for a string key\<close>
  "subscript (JObj kvs) key = (case map_of kvs key of None \<Rightarrow> Inl KeyError | Some v \<Rightarrow> Inr v)"
| "subscript v key = Inl TypeError"

fun get_default :: "'f json \<Rightarrow> unicode \<Rightarrow> 'f json \<Rightarrow> exc + 'f json" where
  \<comment> \<open>\<open>v.get(key, default)\<close>\<close>
  "get_default (JObj kvs) key dflt = (case map_of kvs key of None \<Rightarrow> Inr dflt | Some v \<Rightarrow> Inr v)"
| "get_default v key dflt = Inl AttributeError"

fun float_of :: "'f builtins \<Rightarrow> 'f json \<Rightarrow> exc + 'f" where
  \<comment> \<open>\<open>float(v)\<close>\<close>
  "float_of B (JStr s) = (case float_of_str B s of None \<Rightarrow> Inl ValueError | Some x \<Rightarrow> Inr x)"
| "float_of B (JFloat x) = Inr x"
| "float_of B (JInt n) = (case float_of_int B n of None \<Rightarrow> Inl OverflowError | Some x \<Rightarrow> Inr x)"
| "float_of B (JBool b) =
     (case float_of_int B (if b then 1 else 0) of None \<Rightarrow> Inl OverflowError | Some x \<Rightarrow> Inr x)"
| "float_of B v = Inl TypeError"

section \<open>The resolver\<close>

text \<open>
  The geocoding service is the environment. What the program does to it is recorded in a
  trace of events; \<open>Request url\<close> is the GET of \<open>url\<close> with the \<open>User-Agent\<close> header and the
  timeout of 10, and \<open>Sleep t\<close> is \<open>time.sleep(t)\<close>. The environment \<open>net\<close> answers a
  request from the whole trace up to and including it, so that the same URL can be answered
  differently on a later attempt. The answer stands for lines 62 and 63 (or 78 and 79) as a
  whole: opening the URL, reading and decoding the body and \<open>json.loads\<close> either raise or
  give the decoded value. Console output is not part of the model.
\<close>

datatype event = Request unicode | Sleep rat

datatype 'f response = Raises exc | Returns "'f json"

type_synonym 'f geocode = "'f \<times> 'f \<times> 'f json"

datatype 'f completion = Returned "'f geocode option" | Raised exc

definition search_url :: "'f builtins \<Rightarrow> unicode \<Rightarrow> unicode" where
  "search_url B query =
     ustr ''https://nominatim.openstreetmap.org/search?q='' @ quote B query
       @ ustr ''&format=json&limit=1''"

definition first_candidate :: "'f builtins \<Rightarrow> 'f json \<Rightarrow> exc + 'f geocode" where
  \<comment> \<open>lines 66 to 70, and the same statements at lines 82 to 86\<close>
  "first_candidate B data =
     (case item0 data of Inl e \<Rightarrow> Inl e | Inr result \<Rightarrow>
      (case subscript result (ustr ''lat'') of Inl e \<Rightarrow> Inl e | Inr lat_value \<Rightarrow>
       (case float_of B lat_value of Inl e \<Rightarrow> Inl e | Inr lat \<Rightarrow>
        (case subscript result (ustr ''lon'') of Inl e \<Rightarrow> Inl e | Inr lon_value \<Rightarrow>
         (case float_of B lon_value of Inl e \<Rightarrow> Inl e | Inr lon \<Rightarrow>
          (case get_default result (ustr ''display_name'') (JStr []) of Inl e \<Rightarrow> Inl e
           | Inr display_name \<Rightarrow> Inr (lat, lon, display_name)))))))"

definition attempt ::
  "'f builtins \<Rightarrow> (event list \<Rightarrow> 'f response) \<Rightarrow> unicode \<Rightarrow> unicode \<Rightarrow> event list
     \<Rightarrow> 'f completion \<times> event list" where
  \<comment> \<open>the body of the \<open>try\<close>, lines 61 to 88: how it completes, and the trace after it\<close>
  "attempt B net url name tr =
     (let tr1 = tr @ [Request url] in
      case net tr1 of
        Raises e \<Rightarrow> (Raised e, tr1)
      | Returns data \<Rightarrow>
          (case has_candidates B data of
             Inl e \<Rightarrow> (Raised e, tr1)
           | Inr True \<Rightarrow>
               (case first_candidate B data of
                  Inl e \<Rightarrow> (Raised e, tr1)
                | Inr g \<Rightarrow> (Returned (Some g), tr1))
           | Inr False \<Rightarrow>
               (let simple_query = name @ ustr '', California, USA'';
                    simple_url = search_url B simple_query;
                    tr2 = tr1 @ [Request simple_url] in
                case net tr2 of
                  Raises e \<Rightarrow> (Raised e, tr2)
                | Returns simple_data \<Rightarrow>
                    (case has_candidates B simple_data of
                       Inl e \<Rightarrow> (Raised e, tr2)
                     | Inr True \<Rightarrow>
                         (case first_candidate B simple_data of
                            Inl e \<Rightarrow> (Raised e, tr2)
                          | Inr g \<Rightarrow> (Returned (Some g), tr2))
                     | Inr False \<Rightarrow> (Returned None, tr2)))))"

fun for_attempt ::
  "'f builtins \<Rightarrow> (event list \<Rightarrow> 'f response) \<Rightarrow> unicode \<Rightarrow> unicode \<Rightarrow> int \<Rightarrow> int list
     \<Rightarrow> event list \<Rightarrow> 'f geocode option \<times> event list" where
  \<comment> \<open>the loop of lines 59 to 98 over the values of \<open>attempt\<close> still to come; a loop that
      runs out falls off the end of the function, which returns \<open>None\<close>\<close>
  "for_attempt B net url name retries [] tr = (None, tr)"
| "for_attempt B net url name retries (attempt_no # rest) tr =
     (case attempt B net url name tr of
        (Returned r, tr') \<Rightarrow> (r, tr')
      | (Raised e, tr') \<Rightarrow>
          (if transient e
           then (if attempt_no < retries - 1
                 then for_attempt B net url name retries rest (tr' @ [Sleep 2])
                 else (None, tr'))
           else (None, tr')))"

definition py_range :: "int \<Rightarrow> int list" where
  \<comment> \<open>\<open>range(n)\<close>\<close>
  "py_range n = map int [0..<nat n]"

definition geocode_landmark ::
  "'f builtins \<Rightarrow> (event list \<Rightarrow> 'f response) \<Rightarrow> unicode \<Rightarrow> unicode \<Rightarrow> int \<Rightarrow> event list
     \<Rightarrow> 'f geocode option \<times> event list" where
  "geocode_landmark B net name location retries tr =
     (let query = name @ ustr '', '' @ location @ ustr '', California, USA'';
          url = search_url B query
      in for_attempt B net url name retries (py_range retries) tr)"

section \<open>The main program\<close>

text \<open>
  The dict built for a landmark, as a record: \<open>r_name r\<close> is \<open>r['name']\<close>. A key whose
  value is \<open>None\<close> and a key the dict does not have are both \<open>None\<close>; the program reads
  them with \<open>r.get\<close> only, which does not tell them apart.
\<close>

record 'f outcome =
  r_name :: unicode
  r_location :: unicode
  r_existing_coords :: "'f \<times> 'f"
  r_new_coords :: "('f \<times> 'f) option"
  r_display_name :: "'f json option"
  r_coord_difference :: "('f \<times> 'f) option"
  r_error :: "unicode option"

fun main_loop ::
  "'f builtins \<Rightarrow> (event list \<Rightarrow> 'f response) \<Rightarrow> 'f landmark list \<Rightarrow> 'f outcome list
     \<Rightarrow> event list \<Rightarrow> 'f outcome list \<times> event list" where
  \<comment> \<open>the loop of lines 111 to 162 over the landmarks still to process\<close>
  "main_loop B net [] results tr = (results, tr)"
| "main_loop B net ((name, location, existing_lat, existing_lon) # rest) results tr =
     (case geocode_landmark B net name location 3 tr of
        (geocode_result, tr') \<Rightarrow>
          (let result =
             (case geocode_result of
                Some (new_lat, new_lon, display_name) \<Rightarrow>
                  (let lat_diff = float_abs B (float_sub B new_lat existing_lat);
                       lon_diff = float_abs B (float_sub B new_lon existing_lon)
                   in \<lparr>r_name = name, r_location = location,
                       r_existing_coords = (existing_lat, existing_lon),
                       r_new_coords = Some (new_lat, new_lon),
                       r_display_name = Some display_name,
                       r_coord_difference = Some (lat_diff, lon_diff),
                       r_error = None\<rparr>)
              | None \<Rightarrow>
                  \<lparr>r_name = name, r_location = location,
                   r_existing_coords = (existing_lat, existing_lon),
                   r_new_coords = None,
                   r_display_name = None,
                   r_coord_difference = None,
                   r_error = Some (ustr ''Geocoding failed'')\<rparr>)
           in main_loop B net rest (results @ [result]) (tr' @ [Sleep (11 / 10)])))"

fun write_rows :: "'f builtins \<Rightarrow> 'f outcome list \<Rightarrow> unicode \<Rightarrow> unicode" where
  \<comment> \<open>the loop of lines 180 to 191; \<open>f\<close> is the text written to the file so far\<close>
  "write_rows B [] f = f"
| "write_rows B (r # rs) f =
     (let name = replace (ord CHR '','') (ord CHR '';'') (r_name r);
          (lat, lon) = (case r_new_coords r of Some c \<Rightarrow> c | None \<Rightarrow> r_existing_coords r)
      in write_rows B rs
           (f @ name @ ustr '','' @ float_format B lat @ ustr '','' @ float_format B lon @ [10]))"

text \<open>
  A run either aborts with the exception that left \<open>main\<close>, before anything was requested
  or written, or finishes with the list \<open>results\<close>, the trace of requests and sleeps, and
  the files it wrote, by name.
\<close>

datatype 'f run =
    Aborted exc
  | Finished "'f outcome list" "event list" "unicode \<Rightarrow> unicode option"

definition main ::
  "'f builtins \<Rightarrow> (unicode \<Rightarrow> exc + unicode) \<Rightarrow> (event list \<Rightarrow> 'f response) \<Rightarrow> 'f run" where
  "main B fs net =
     (let input_file = ustr ''in.txt'';
          output_file = ustr ''landmarks_with_coords.json''
      in case extract_landmarks_from_file B fs input_file of
           Inl e \<Rightarrow> Aborted e
         | Inr landmarks \<Rightarrow>
             (case main_loop B net landmarks [] [] of
                (results, tr) \<Rightarrow>
                  (let csv_file = ustr ''landmarks_coords.csv'';
                       f = write_rows B results (ustr ''name,lat,lon'' @ [10])
                   in Finished results tr (Map.empty(csv_file \<mapsto> f)))))"

section \<open>Vocabulary for the properties\<close>

subsection \<open>What the pattern accepts\<close>

text \<open>
  The declarative reading of a pattern: \<open>matches d items s pos marks m\<close> holds when \<open>items\<close>
  can consume some prefix of \<open>s\<close>, each atom taking a run of characters of its class whose
  length its quantifier allows, and the group boundaries passed on the way are \<open>m\<close>. It
  says which matches exist, not which one the backtracking order picks.
\<close>

fun repeats :: "quantifier \<Rightarrow> nat \<Rightarrow> bool" where
  "repeats One n = (n = 1)"
| "repeats Opt n = (n \<le> 1)"
| "repeats Star n = True"
| "repeats Plus n = (0 < n)"
| "repeats LazyStar n = True"
| "repeats LazyPlus n = (0 < n)"

fun matches :: "(nat \<Rightarrow> bool) \<Rightarrow> item list \<Rightarrow> unicode \<Rightarrow> nat \<Rightarrow> nat list \<Rightarrow> nat list \<Rightarrow> bool" where
  "matches d [] s pos marks m = (m = rev marks)"
| "matches d (Bol # r) s pos marks m = (pos = 0 \<and> matches d r s pos marks m)"
| "matches d (GOpen # r) s pos marks m = matches d r s pos (pos # marks) m"
| "matches d (GClose # r) s pos marks m = matches d r s pos (pos # marks) m"
| "matches d (Atom c q # r) s pos marks m =
     (\<exists>w s'. s = w @ s' \<and> repeats q (length w) \<and> (\<forall>x \<in> set w. cmatch d c x)
        \<and> matches d r s' (pos + length w) marks m)"

fun after_one :: "quantifier \<Rightarrow> quantifier option" where
  \<comment> \<open>what is left of a quantifier once its atom has taken one character\<close>
  "after_one One = None"
| "after_one Opt = None"
| "after_one Star = Some Star"
| "after_one Plus = Some Star"
| "after_one LazyStar = Some LazyStar"
| "after_one LazyPlus = Some LazyStar"



text \<open>
  The shape of a landmark line, read off the pattern: a name, whitespace, a location in
  parentheses, whitespace, an en dash or a hyphen, whitespace, and in parentheses two
  decimal numbers separated by a comma and optional whitespace; anything may follow.
  Name and location are non-empty and hold no newline. The code points are 40 and 41 for
  the parentheses, 44 for the comma, 43 for the plus sign, 45 for the hyphen, 46 for the
  full stop and 8211 for the en dash.
\<close>

definition free_text :: "unicode \<Rightarrow> bool" where
  "free_text g = (g \<noteq> [] \<and> 10 \<notin> set g)"

definition whitespace :: "unicode \<Rightarrow> bool" where
  "whitespace w = (\<forall>c \<in> set w. isspace c)"

definition decimal_shape :: "(nat \<Rightarrow> bool) \<Rightarrow> unicode \<Rightarrow> bool" where
  "decimal_shape d g =
     (\<exists>sign ds dot fs.
        g = sign @ ds @ dot @ fs
        \<and> (sign = [] \<or> sign = [43] \<or> sign = [45])
        \<and> ds \<noteq> [] \<and> (\<forall>c \<in> set ds. d c)
        \<and> (dot = [] \<or> dot = [46])
        \<and> (\<forall>c \<in> set fs. d c))"

definition line_parts ::
  "(nat \<Rightarrow> bool) \<Rightarrow> unicode \<Rightarrow> unicode \<Rightarrow> unicode \<Rightarrow> unicode \<Rightarrow> unicode \<Rightarrow> bool" where
  "line_parts d s name location lat lon =
     (\<exists>w1 w2 dash w3 w4 rest.
        s = name @ w1 @ [40] @ location @ [41] @ w2 @ [dash] @ w3 @ [40] @ lat @ [44] @ w4
              @ lon @ [41] @ rest
        \<and> free_text name \<and> w1 \<noteq> [] \<and> whitespace w1
        \<and> free_text location \<and> w2 \<noteq> [] \<and> whitespace w2
        \<and> (dash = 8211 \<or> dash = 45) \<and> w3 \<noteq> [] \<and> whitespace w3
        \<and> decimal_shape d lat \<and> whitespace w4 \<and> decimal_shape d lon)"

definition line_shape :: "(nat \<Rightarrow> bool) \<Rightarrow> unicode \<Rightarrow> bool" where
  "line_shape d s = (\<exists>name location lat lon. line_parts d s name location lat lon)"




definition float_total :: "'f builtins \<Rightarrow> bool" where
  \<comment> \<open>\<open>float\<close> reads every text of the shape \<open>[+-]?\d+\.?\d*\<close>\<close>
  "float_total B = (\<forall>s. decimal_shape (isdecimal B) s \<longrightarrow> float_of_str B s \<noteq> None)"


subsection \<open>Queries and answers\<close>

definition fallback_url :: "'f builtins \<Rightarrow> unicode \<Rightarrow> unicode" where
  "fallback_url B name = search_url B (name @ ustr '', California, USA'')"

definition primary_url :: "'f builtins \<Rightarrow> unicode \<Rightarrow> unicode \<Rightarrow> unicode" where
  "primary_url B name location = search_url B (name @ ustr '', '' @ location @ ustr '', California, USA'')"

text \<open>
  \<open>returns_candidates B net url name tr cands tr'\<close>: in the attempt that starts with the
  trace \<open>tr\<close>, a query is answered with the candidate list \<open>cands\<close>, and \<open>tr'\<close> is the
  trace after that query. The query is the primary one, or the fallback one after a
  primary answer in which the program found no candidates.
\<close>

definition returns_candidates ::
  "'f builtins \<Rightarrow> (event list \<Rightarrow> 'f response) \<Rightarrow> unicode \<Rightarrow> unicode \<Rightarrow> event list
     \<Rightarrow> 'f json list \<Rightarrow> event list \<Rightarrow> bool" where
  "returns_candidates B net url name tr cands tr' =
     (net (tr @ [Request url]) = Returns (JArr cands) \<and> tr' = tr @ [Request url]
      \<or> (\<exists>data. net (tr @ [Request url]) = Returns data \<and> has_candidates B data = Inr False)
        \<and> net (tr @ [Request url, Request (fallback_url B name)]) = Returns (JArr cands)
        \<and> tr' = tr @ [Request url, Request (fallback_url B name)])"

subsection \<open>The report, as the specification words it\<close>

text \<open>
  \<open>resolve_all\<close> pairs each landmark, in order, with what the resolver returned for it;
  \<open>outcome_of\<close> is the record built for such a pair and \<open>csv_row\<close> its CSV row: the
  name with every comma turned into a semicolon, then the new coordinates when there are
  some and the existing ones otherwise.
\<close>

definition landmark_of :: "'f outcome \<Rightarrow> 'f landmark" where
  "landmark_of r = (r_name r, r_location r, fst (r_existing_coords r), snd (r_existing_coords r))"

fun resolve_all ::
  "'f builtins \<Rightarrow> (event list \<Rightarrow> 'f response) \<Rightarrow> 'f landmark list \<Rightarrow> event list
     \<Rightarrow> ('f landmark \<times> 'f geocode option) list" where
  "resolve_all B net [] tr = []"
| "resolve_all B net ((name, location, existing_lat, existing_lon) # rest) tr =
     (case geocode_landmark B net name location 3 tr of
        (g, tr') \<Rightarrow>
          ((name, location, existing_lat, existing_lon), g)
            # resolve_all B net rest (tr' @ [Sleep (11 / 10)]))"

definition csv_row :: "'f builtins \<Rightarrow> 'f landmark \<times> 'f geocode option \<Rightarrow> unicode" where
  "csv_row B p =
     (case p of
        ((name, location, existing_lat, existing_lon), g) \<Rightarrow>
          (let (lat, lon) =
             (case g of
                Some (new_lat, new_lon, display_name) \<Rightarrow> (new_lat, new_lon)
              | None \<Rightarrow> (existing_lat, existing_lon))
           in map (\<lambda>c. if c = ord CHR '','' then ord CHR '';'' else c) name
                @ ustr '','' @ float_format B lat @ ustr '','' @ float_format B lon @ [10]))"

definition outcome_of :: "'f builtins \<Rightarrow> 'f landmark \<times> 'f geocode option \<Rightarrow> 'f outcome" where
  "outcome_of B p =
     (case p of
        ((name, location, existing_lat, existing_lon), g) \<Rightarrow>
          (case g of
             Some (new_lat, new_lon, display_name) \<Rightarrow>
               \<lparr>r_name = name, r_location = location,
                r_existing_coords = (existing_lat, existing_lon),
                r_new_coords = Some (new_lat, new_lon),
                r_display_name = Some display_name,
                r_coord_difference =
                  Some (float_abs B (float_sub B new_lat existing_lat),
                        float_abs B (float_sub B new_lon existing_lon)),
                r_error = None\<rparr>
           | None \<Rightarrow>
               \<lparr>r_name = name, r_location = location,
                r_existing_coords = (existing_lat, existing_lon),
                r_new_coords = None, r_display_name = None, r_coord_difference = None,
                r_error = Some (ustr ''Geocoding failed'')\<rparr>))"

subsection \<open>A sample environment\<close>

text \<open>
  An instance of the builtins for running the model on examples: the decimal digits are
  the ASCII ones, a float is kept as the text it was read from (a non-empty text of
  digits, signs and full stops), arithmetic on floats builds the text of the expression,
  a float is never zero, \<open>float\<close> of an integer is not provided and raises, and \<open>quote\<close>
  leaves the query as it is.
\<close>

definition ascii_digit :: "nat \<Rightarrow> bool" where
  "ascii_digit c = (48 \<le> c \<and> c \<le> 57)"

definition sample_builtins :: "unicode builtins" where
  "sample_builtins =
     \<lparr>isdecimal = ascii_digit,
      float_of_str = (\<lambda>s. if s \<noteq> [] \<and> list_all (\<lambda>c. ascii_digit c \<or> c = 43 \<or> c = 45 \<or> c = 46) s
                          then Some s else None),
      float_of_int = (\<lambda>n. None),
      float_bool = (\<lambda>x. True),
      float_sub = (\<lambda>x y. x @ ustr '' - '' @ y),
      float_abs = (\<lambda>x. ustr ''abs('' @ x @ ustr '')''),
      float_format = (\<lambda>x. x),
      quote = (\<lambda>q. q)\<rparr>"

definition sample_name :: unicode where
  "sample_name = ustr ''Lost Coast Trail''"

definition sample_location :: unicode where
  "sample_location = ustr ''King Range, Humboldt/Mendocino''"

definition sample_candidate :: "unicode json" where
  "sample_candidate =
     JObj [(ustr ''lat'', JStr (ustr ''40.2891'')), (ustr ''lon'', JStr (ustr ''-124.3558'')),
           (ustr ''display_name'', JStr (ustr ''Lost Coast Trail, Humboldt County''))]"

definition net_empty :: "event list \<Rightarrow> unicode response" where
  "net_empty h = Returns (JArr [])"

definition net_second :: "event list \<Rightarrow> unicode response" where
  "net_second h = (if length h = 1 then Returns (JArr []) else Returns (JArr [sample_candidate]))"

definition net_garbled :: "event list \<Rightarrow> unicode response" where
  "net_garbled h = Raises JSONDecodeError"

definition net_no_lon :: "event list \<Rightarrow> unicode response" where
  "net_no_lon h = Returns (JArr [JObj [(ustr ''lat'', JStr (ustr ''40.2891''))]])"

definition net_unnamed :: "event list \<Rightarrow> unicode response" where
  "net_unnamed h =
     Returns (JArr [JObj [(ustr ''lat'', JStr (ustr ''40.2891'')),
                          (ustr ''lon'', JStr (ustr ''-124.3558''))]])"

definition net_recovering :: "event list \<Rightarrow> unicode response" where
  "net_recovering h =
     (if length h = 1 then Raises URLError
      else if length h = 3 then Returns (JArr [])
      else if length h = 4 then Raises TimeoutError
      else if length h = 6 then Raises HTTPError
      else Returns (JArr [sample_candidate]))"

definition lost_coast_line :: unicode where
  "lost_coast_line =
     ustr ''Lost Coast Trail (King Range, Humboldt/Mendocino) '' @ [8211]
       @ ustr '' (40.28918, -124.35588)''"


definition golden_gate_line :: unicode where
  "golden_gate_line = ustr ''Golden Gate, Park (San Francisco) - (37.7694, -122.4862)''"

definition sample_content :: unicode where
  "sample_content =
     ustr ''# Landmarks'' @ [10] @ [10] @ ustr ''  '' @ lost_coast_line @ [10]
       @ golden_gate_line @ [10]"

definition sample_file :: "unicode \<Rightarrow> exc + unicode" where
  "sample_file filename = (if filename = ustr ''in.txt'' then Inr sample_content else Inl OSError)"

definition net_mixed :: "event list \<Rightarrow> unicode response" where
  "net_mixed h = (if length h \<le> 1 then Returns (JArr [sample_candidate]) else Raises URLError)"

definition lost_coast :: "unicode landmark" where
  "lost_coast =
     (ustr ''Lost Coast Trail'', ustr ''King Range, Humboldt/Mendocino'',
      ustr ''40.28918'', ustr ''-124.35588'')"

definition golden_gate :: "unicode landmark" where
  "golden_gate =
     (ustr ''Golden Gate, Park'', ustr ''San Francisco'', ustr ''37.7694'', ustr ''-122.4862'')"

section \<open>The matcher finds a match exactly when one exists\<close>

declare matches.simps(5) [simp del]

lemmas matches_Atom = matches.simps(5)

lemma matches_AtomI:
  "s = w @ s' \<Longrightarrow> repeats q (length w) \<Longrightarrow> \<forall>x \<in> set w. cmatch d c x \<Longrightarrow>
   matches d r s' (pos + length w) marks m \<Longrightarrow> matches d (Atom c q # r) s pos marks m"
  unfolding matches_Atom by blast

lemma matches_cons:
  assumes "cmatch d c x" and "matches d (Atom c q' # r) xs (Suc pos) marks m"
    and "\<And>n. repeats q' n \<Longrightarrow> repeats q (Suc n)"
  shows "matches d (Atom c q # r) (x # xs) pos marks m"
proof -
  from assms(2) obtain w s' where w: "xs = w @ s'" "repeats q' (length w)"
    "\<forall>y \<in> set w. cmatch d c y" "matches d r s' (Suc pos + length w) marks m"
    unfolding matches_Atom by blast
  show ?thesis
    by (rule matches_AtomI [of _ "x # w" s']) (use w assms(1,3) in simp_all)
qed

lemma matches_one:
  "cmatch d c x \<Longrightarrow> repeats q 1 \<Longrightarrow> matches d r xs (Suc pos) marks m \<Longrightarrow>
   matches d (Atom c q # r) (x # xs) pos marks m"
  by (rule matches_AtomI [of _ "[x]"]) simp_all

lemma matches_skip:
  "repeats q 0 \<Longrightarrow> matches d r s pos marks m \<Longrightarrow> matches d (Atom c q # r) s pos marks m"
  by (rule matches_AtomI [of _ "[]"]) simp_all

lemma rmatch_sound:
  "rmatch d items s pos marks = Some m \<Longrightarrow> matches d items s pos marks m"
proof (induction d items s pos marks rule: rmatch.induct)
  case (6 d c r x xs pos marks)
  then show ?case
    by (auto split: if_splits intro!: matches_one)
next
  case (8 d c r x xs pos marks)
  then show ?case
    by (auto split: if_splits option.splits intro: matches_one matches_skip)
next
  case (10 d c r x xs pos marks)
  then show ?case
    by (auto split: if_splits option.splits
        intro: matches_skip matches_cons [where q' = Star and q = Star])
next
  case (12 d c r x xs pos marks)
  then show ?case
    by (auto split: if_splits intro!: matches_cons [where q' = Star and q = Plus])
next
  case (14 d c r x xs pos marks)
  then show ?case
    by (auto split: if_splits option.splits
        intro: matches_skip matches_cons [where q' = LazyStar and q = LazyStar])
next
  case (16 d c r x xs pos marks)
  then show ?case
    by (auto split: if_splits intro!: matches_cons [where q' = LazyStar and q = LazyPlus])
qed (auto split: if_splits intro: matches_skip)

lemma matches_Atom_cases:
  assumes "matches d (Atom c q # r) s pos marks m"
  obtains (skip) "repeats q 0" "matches d r s pos marks m"
  | (take) x xs where "s = x # xs" "cmatch d c x"
      "matches d (case after_one q of None \<Rightarrow> r | Some q' \<Rightarrow> Atom c q' # r) xs (Suc pos) marks m"
proof -
  from assms obtain w s' where w: "s = w @ s'" "repeats q (length w)"
    "\<forall>y \<in> set w. cmatch d c y" "matches d r s' (pos + length w) marks m"
    unfolding matches_Atom by blast
  show thesis
  proof (cases w)
    case Nil
    with w show thesis by (auto intro: skip)
  next
    case (Cons x w')
    have "matches d (case after_one q of None \<Rightarrow> r | Some q' \<Rightarrow> Atom c q' # r) (w' @ s')
        (Suc pos) marks m"
    proof (cases "after_one q")
      case None
      then have "w' = []"
        using w(2) Cons by (cases q) simp_all
      with None w(4) Cons show ?thesis by simp
    next
      case (Some q')
      have "matches d (Atom c q' # r) (w' @ s') (Suc pos) marks m"
        by (rule matches_AtomI [of _ w' s']) (use w Cons Some in \<open>cases q; simp; fail\<close>)+
      with Some show ?thesis by simp
    qed
    with w Cons show thesis by (auto intro: take)
  qed
qed

lemma rmatch_complete:
  "matches d items s pos marks m \<Longrightarrow> rmatch d items s pos marks \<noteq> None"
proof (induction d items s pos marks rule: rmatch.induct)
  case (5 d c r pos marks)
  then show ?case by (auto elim!: matches_Atom_cases)
next
  case (6 d c r x xs pos marks)
  from "6.prems" show ?case
    by (cases rule: matches_Atom_cases) (use "6.IH" in auto)
next
  case (7 d c r pos marks)
  from "7.prems" show ?case
    by (cases rule: matches_Atom_cases) (use "7.IH" in auto)
next
  case (8 d c r x xs pos marks)
  from "8.prems" show ?case
    by (cases rule: matches_Atom_cases) (use "8.IH" in \<open>auto split: option.splits\<close>)
next
  case (9 d c r pos marks)
  from "9.prems" show ?case
    by (cases rule: matches_Atom_cases) (use "9.IH" in auto)
next
  case (10 d c r x xs pos marks)
  from "10.prems" show ?case
    by (cases rule: matches_Atom_cases) (use "10.IH" in \<open>auto split: option.splits\<close>)
next
  case (11 d c r pos marks)
  then show ?case by (auto elim!: matches_Atom_cases)
next
  case (12 d c r x xs pos marks)
  from "12.prems" show ?case
    by (cases rule: matches_Atom_cases) (use "12.IH" in auto)
next
  case (13 d c r pos marks)
  from "13.prems" show ?case
    by (cases rule: matches_Atom_cases) (use "13.IH" in auto)
next
  case (14 d c r x xs pos marks)
  from "14.prems" show ?case
    by (cases rule: matches_Atom_cases) (use "14.IH" in \<open>auto split: option.splits\<close>)
next
  case (15 d c r pos marks)
  then show ?case by (auto elim!: matches_Atom_cases)
next
  case (16 d c r x xs pos marks)
  from "16.prems" show ?case
    by (cases rule: matches_Atom_cases) (use "16.IH" in auto)
qed auto

lemma matches_One:
  "matches d (Atom c One # r) s pos marks m \<longleftrightarrow>
     (\<exists>x s'. s = x # s' \<and> cmatch d c x \<and> matches d r s' (Suc pos) marks m)"
  unfolding matches_Atom by (auto simp: length_Suc_conv intro: exI [of _ "[x]" for x])

lemma matches_Opt:
  "matches d (Atom c Opt # r) s pos marks m \<longleftrightarrow>
     (\<exists>w s'. s = w @ s' \<and> (w = [] \<or> (\<exists>x. w = [x] \<and> cmatch d c x))
        \<and> matches d r s' (pos + length w) marks m)"
proof -
  have "repeats Opt (length w) \<and> (\<forall>x \<in> set w. cmatch d c x)
      \<longleftrightarrow> w = [] \<or> (\<exists>x. w = [x] \<and> cmatch d c x)" for w :: unicode
    by (cases w) auto
  then show ?thesis
    unfolding matches_Atom by (simp only: conj_assoc [symmetric])
qed

lemma matches_Many:
  "matches d (Atom c Star # r) s pos marks m \<longleftrightarrow>
     (\<exists>w s'. s = w @ s' \<and> (\<forall>x \<in> set w. cmatch d c x) \<and> matches d r s' (pos + length w) marks m)"
  "matches d (Atom c Plus # r) s pos marks m \<longleftrightarrow>
     (\<exists>w s'. s = w @ s' \<and> w \<noteq> [] \<and> (\<forall>x \<in> set w. cmatch d c x)
        \<and> matches d r s' (pos + length w) marks m)"
  "matches d (Atom c LazyPlus # r) s pos marks m \<longleftrightarrow>
     (\<exists>w s'. s = w @ s' \<and> w \<noteq> [] \<and> (\<forall>x \<in> set w. cmatch d c x)
        \<and> matches d r s' (pos + length w) marks m)"
  unfolding matches_Atom by simp_all

section \<open>The pattern accepts exactly the lines of the landmark shape\<close>

lemma slice_eq:
  "b = length pre \<Longrightarrow> e = b + length g \<Longrightarrow> take (e - b) (drop b (pre @ g @ post)) = g"
  by simp

lemma pattern_matchesD:
  assumes "matches d pattern s 0 [] m"
  shows "\<exists>name w1 location w2 dash w3 sg1 ds1 dt1 fs1 w4 sg2 ds2 dt2 fs2 rest.
     s = name @ w1 @ 40 # location @ 41 # w2 @ dash # w3 @ 40 # sg1 @ ds1 @ dt1 @ fs1 @ 44 # w4
           @ sg2 @ ds2 @ dt2 @ fs2 @ 41 # rest
     \<and> m = [0, length name,
            length (name @ w1 @ [40]), length (name @ w1 @ [40]) + length location,
            length (name @ w1 @ [40] @ location @ [41] @ w2 @ [dash] @ w3 @ [40]),
            length (name @ w1 @ [40] @ location @ [41] @ w2 @ [dash] @ w3 @ [40])
              + length (sg1 @ ds1 @ dt1 @ fs1),
            length (name @ w1 @ [40] @ location @ [41] @ w2 @ [dash] @ w3 @ [40]
              @ (sg1 @ ds1 @ dt1 @ fs1) @ [44] @ w4),
            length (name @ w1 @ [40] @ location @ [41] @ w2 @ [dash] @ w3 @ [40]
              @ (sg1 @ ds1 @ dt1 @ fs1) @ [44] @ w4) + length (sg2 @ ds2 @ dt2 @ fs2)]
     \<and> free_text name \<and> w1 \<noteq> [] \<and> whitespace w1
     \<and> free_text location \<and> w2 \<noteq> [] \<and> whitespace w2
     \<and> (dash = 8211 \<or> dash = 45) \<and> w3 \<noteq> [] \<and> whitespace w3
     \<and> (sg1 = [] \<or> sg1 = [43] \<or> sg1 = [45]) \<and> ds1 \<noteq> [] \<and> (\<forall>c \<in> set ds1. d c)
     \<and> (dt1 = [] \<or> dt1 = [46]) \<and> (\<forall>c \<in> set fs1. d c)
     \<and> whitespace w4
     \<and> (sg2 = [] \<or> sg2 = [43] \<or> sg2 = [45]) \<and> ds2 \<noteq> [] \<and> (\<forall>c \<in> set ds2. d c)
     \<and> (dt2 = [] \<or> dt2 = [46]) \<and> (\<forall>c \<in> set fs2. d c)"
  using assms unfolding pattern_def number_def ord_def
  apply (simp add: matches_One matches_Opt matches_Many)
  apply (elim exE conjE)
  apply hypsubst
  apply (intro exI conjI)
                      apply (rule refl)
                      apply (simp_all add: free_text_def whitespace_def)
   apply blast+
  done

lemma pattern_groups:
  assumes "matches d pattern s 0 [] m"
  shows "\<exists>name location lat lon.
     groups s m = [name, location, lat, lon] \<and> line_parts d s name location lat lon"
proof -
  from pattern_matchesD [OF assms]
  obtain name w1 location w2 dash w3 sg1 ds1 dt1 fs1 w4 sg2 ds2 dt2 fs2 rest where
    s: "s = name @ w1 @ 40 # location @ 41 # w2 @ dash # w3 @ 40 # sg1 @ ds1 @ dt1 @ fs1 @ 44 # w4
           @ sg2 @ ds2 @ dt2 @ fs2 @ 41 # rest"
    and m: "m = [0, length name,
            length (name @ w1 @ [40]), length (name @ w1 @ [40]) + length location,
            length (name @ w1 @ [40] @ location @ [41] @ w2 @ [dash] @ w3 @ [40]),
            length (name @ w1 @ [40] @ location @ [41] @ w2 @ [dash] @ w3 @ [40])
              + length (sg1 @ ds1 @ dt1 @ fs1),
            length (name @ w1 @ [40] @ location @ [41] @ w2 @ [dash] @ w3 @ [40]
              @ (sg1 @ ds1 @ dt1 @ fs1) @ [44] @ w4),
            length (name @ w1 @ [40] @ location @ [41] @ w2 @ [dash] @ w3 @ [40]
              @ (sg1 @ ds1 @ dt1 @ fs1) @ [44] @ w4) + length (sg2 @ ds2 @ dt2 @ fs2)]"
    and name: "free_text name" and w1: "w1 \<noteq> []" "whitespace w1"
    and location: "free_text location" and w2: "w2 \<noteq> []" "whitespace w2"
    and dash: "dash = 8211 \<or> dash = 45" and w3: "w3 \<noteq> []" "whitespace w3"
    and lat: "sg1 = [] \<or> sg1 = [43] \<or> sg1 = [45]" "ds1 \<noteq> []" "\<forall>c \<in> set ds1. d c"
      "dt1 = [] \<or> dt1 = [46]" "\<forall>c \<in> set fs1. d c"
    and w4: "whitespace w4"
    and lon: "sg2 = [] \<or> sg2 = [43] \<or> sg2 = [45]" "ds2 \<noteq> []" "\<forall>c \<in> set ds2. d c"
      "dt2 = [] \<or> dt2 = [46]" "\<forall>c \<in> set fs2. d c"
    by blast
  let ?lat = "sg1 @ ds1 @ dt1 @ fs1" and ?lon = "sg2 @ ds2 @ dt2 @ fs2"
  let ?p2 = "name @ w1 @ [40]"
  let ?p3 = "name @ w1 @ [40] @ location @ [41] @ w2 @ [dash] @ w3 @ [40]"
  let ?p4 = "name @ w1 @ [40] @ location @ [41] @ w2 @ [dash] @ w3 @ [40] @ ?lat @ [44] @ w4"
  have g1: "take (length name - 0) (drop 0 s) = name"
    by (simp add: s)
  have g2: "take (length ?p2 + length location - length ?p2) (drop (length ?p2) s) = location"
    using slice_eq [of "length ?p2" ?p2 "length ?p2 + length location" location
        "41 # w2 @ dash # w3 @ 40 # ?lat @ 44 # w4 @ ?lon @ 41 # rest"]
    by (simp add: s)
  have g3: "take (length ?p3 + length ?lat - length ?p3) (drop (length ?p3) s) = ?lat"
    using slice_eq [of "length ?p3" ?p3 "length ?p3 + length ?lat" ?lat
        "44 # w4 @ ?lon @ 41 # rest"]
    by (simp add: s)
  have g4: "take (length ?p4 + length ?lon - length ?p4) (drop (length ?p4) s) = ?lon"
    using slice_eq [of "length ?p4" ?p4 "length ?p4 + length ?lon" ?lon "41 # rest"]
    by (simp add: s)
  have "groups s m = [name, location, ?lat, ?lon]"
    unfolding m groups.simps g1 g2 g3 g4 ..
  moreover have "decimal_shape d ?lat"
    unfolding decimal_shape_def using lat by blast
  moreover have "decimal_shape d ?lon"
    unfolding decimal_shape_def using lon by blast
  moreover have "s = name @ w1 @ [40] @ location @ [41] @ w2 @ [dash] @ w3 @ [40] @ ?lat @ [44] @ w4
              @ ?lon @ [41] @ rest"
    by (simp add: s)
  ultimately show ?thesis
    unfolding line_parts_def
    using name w1 location w2 dash w3 w4 by blast
qed

lemma re_match_parts:
  assumes "re_match d pattern s = Some gs"
  shows "\<exists>name location lat lon.
     gs = [name, location, lat, lon] \<and> line_parts d s name location lat lon"
proof -
  from assms obtain m where m: "rmatch d pattern s 0 [] = Some m" and gs: "gs = groups s m"
    by (auto simp: re_match_def split: option.splits)
  from m have "matches d pattern s 0 [] m"
    by (rule rmatch_sound)
  from pattern_groups [OF this] gs show ?thesis
    by simp
qed

lemma line_parts_matches:
  assumes "line_parts d s name location lat lon"
  shows "\<exists>m. matches d pattern s 0 [] m"
  using assms unfolding line_parts_def decimal_shape_def pattern_def number_def ord_def
  apply (elim exE conjE)
  apply hypsubst
  apply (simp add: matches_One matches_Opt matches_Many free_text_def whitespace_def del: ex_simps)
  apply (intro exI conjI)
  apply (rule refl | assumption | simp | blast)+
  done

section \<open>The pattern takes the first decomposition\<close>





















section \<open>The resolver: fallback, first candidate, retries\<close>

lemma has_candidates_empty: "has_candidates B (JArr []) = Inr False"
  by (simp add: has_candidates_def)

lemma has_candidates_nonempty: "has_candidates B (JArr (c # cs)) = Inr True"
  by (simp add: has_candidates_def)

lemma attempt_primary_raises:
  "net (tr @ [Request url]) = Raises e \<Longrightarrow> attempt B net url name tr = (Raised e, tr @ [Request url])"
  by (simp add: attempt_def)

lemma attempt_primary_candidates:
  "net (tr @ [Request url]) = Returns (JArr (c # cs)) \<Longrightarrow>
   attempt B net url name tr =
     ((case first_candidate B (JArr (c # cs)) of Inl e \<Rightarrow> Raised e | Inr g \<Rightarrow> Returned (Some g)),
      tr @ [Request url])"
  by (simp add: attempt_def has_candidates_nonempty split: sum.split)

lemma attempt_primary_empty:
  "net (tr @ [Request url]) = Returns data \<Longrightarrow> has_candidates B data = Inr False \<Longrightarrow>
   attempt B net url name tr =
     (case net (tr @ [Request url, Request (fallback_url B name)]) of
        Raises e \<Rightarrow> (Raised e, tr @ [Request url, Request (fallback_url B name)])
      | Returns simple_data \<Rightarrow>
          (case has_candidates B simple_data of
             Inl e \<Rightarrow> (Raised e, tr @ [Request url, Request (fallback_url B name)])
           | Inr True \<Rightarrow>
               (case first_candidate B simple_data of
                  Inl e \<Rightarrow> (Raised e, tr @ [Request url, Request (fallback_url B name)])
                | Inr g \<Rightarrow> (Returned (Some g), tr @ [Request url, Request (fallback_url B name)]))
           | Inr False \<Rightarrow> (Returned None, tr @ [Request url, Request (fallback_url B name)])))"
  by (simp add: attempt_def fallback_url_def Let_def
        split: response.split sum.split bool.split)

lemma attempt_on_candidates:
  assumes "returns_candidates B net url name tr (c # cs) tr'"
  shows "attempt B net url name tr =
     ((case first_candidate B (JArr (c # cs)) of Inl e \<Rightarrow> Raised e | Inr g \<Rightarrow> Returned (Some g)), tr')"
  using assms unfolding returns_candidates_def
  by (auto simp: attempt_primary_candidates attempt_primary_empty has_candidates_nonempty split: sum.split)

lemma attempt_trace:
  "snd (attempt B net url name tr) = tr @ [Request url]
   \<or> snd (attempt B net url name tr) = tr @ [Request url, Request (fallback_url B name)]"
  by (simp add: attempt_def fallback_url_def Let_def split: response.split sum.split bool.split)

lemma float_of_not_transient: "float_of B v = Inl e \<Longrightarrow> \<not> transient e"
  by (cases v) (auto simp: transient_def split: option.splits)

lemma item0_not_transient: "item0 v = Inl e \<Longrightarrow> \<not> transient e"
  by (erule item0.elims) (simp_all add: transient_def)

lemma subscript_not_transient: "subscript v key = Inl e \<Longrightarrow> \<not> transient e"
  by (cases v) (auto simp: transient_def split: option.splits)

lemma get_default_not_transient: "get_default v key dflt = Inl e \<Longrightarrow> \<not> transient e"
  by (cases v) (auto simp: transient_def split: option.splits)

lemma first_candidate_not_transient:
  assumes "first_candidate B data = Inl e"
  shows "\<not> transient e"
  using assms unfolding first_candidate_def
  by (auto split: sum.splits
      dest: item0_not_transient subscript_not_transient float_of_not_transient
        get_default_not_transient)

lemma py_range_pos: "0 < retries \<Longrightarrow> py_range retries = 0 # map int [1..<nat retries]"
  by (simp add: py_range_def upt_conv_Cons)

lemma geocode_landmark_first:
  "0 < retries \<Longrightarrow>
   geocode_landmark B net name location retries tr =
     for_attempt B net (primary_url B name location) name retries
       (0 # map int [1..<nat retries]) tr"
  by (simp only: geocode_landmark_def primary_url_def py_range_pos Let_def)

lemma for_attempt_returned:
  "attempt B net url name tr = (Returned r, tr') \<Longrightarrow>
   for_attempt B net url name retries (k # rest) tr = (r, tr')"
  by simp

lemma for_attempt_terminal:
  "attempt B net url name tr = (Raised e, tr') \<Longrightarrow> \<not> transient e \<Longrightarrow>
   for_attempt B net url name retries (k # rest) tr = (None, tr')"
  by simp

lemma for_attempt_on_candidates:
  assumes "returns_candidates B net url name tr (c # cs) tr'"
  shows "for_attempt B net url name retries (k # rest) tr =
     ((case first_candidate B (JArr (c # cs)) of Inl e \<Rightarrow> None | Inr g \<Rightarrow> Some g), tr')"
proof (cases "first_candidate B (JArr (c # cs))")
  case (Inl e)
  then have "attempt B net url name tr = (Raised e, tr')"
    using attempt_on_candidates [OF assms] by simp
  moreover have "\<not> transient e"
    using Inl by (rule first_candidate_not_transient)
  ultimately show ?thesis
    using Inl by (simp add: for_attempt_terminal)
next
  case (Inr g)
  then have "attempt B net url name tr = (Returned (Some g), tr')"
    using attempt_on_candidates [OF assms] by simp
  then show ?thesis
    using Inr by (simp add: for_attempt_returned)
qed

text \<open>
  Claim C5. In an attempt whose primary query, for
  \<open>"<name>, <location>, California, USA"\<close>, is answered with an empty candidate list, exactly
  one more request follows, for \<open>"<name>, California, USA"\<close>. If that one is answered with
  an empty list too, the resolver returns \<open>None\<close> there and then: the trace ends with the
  two requests, with no sleep and no further attempt, whatever attempt of the loop this is.
\<close>

theorem fallback_once_then_absent:
  assumes "net (tr @ [Request (primary_url B name location)]) = Returns (JArr [])"
  shows "snd (attempt B net (primary_url B name location) name tr) =
           tr @ [Request (primary_url B name location),
                 Request (search_url B (name @ ustr '', California, USA''))]
     \<and> (net (tr @ [Request (primary_url B name location),
                    Request (search_url B (name @ ustr '', California, USA''))])
           = Returns (JArr []) \<longrightarrow>
          for_attempt B net (primary_url B name location) name retries (k # rest) tr =
            (None, tr @ [Request (primary_url B name location),
                         Request (search_url B (name @ ustr '', California, USA''))])
          \<and> (0 < retries \<longrightarrow>
              geocode_landmark B net name location retries tr =
                (None, tr @ [Request (primary_url B name location),
                             Request (search_url B (name @ ustr '', California, USA''))])))"
proof -
  let ?u = "primary_url B name location"
  let ?s = "fallback_url B name"
  have s: "search_url B (name @ ustr '', California, USA'') = ?s"
    by (simp add: fallback_url_def)
  have tr: "snd (attempt B net ?u name tr) = tr @ [Request ?u, Request ?s]"
    by (simp add: attempt_primary_empty [of net tr ?u "JArr []" B name, OF assms has_candidates_empty]
        split: response.split sum.split bool.split)
  have loop: "for_attempt B net ?u name retries (j # js) tr = (None, tr @ [Request ?u, Request ?s])"
    if "net (tr @ [Request ?u, Request ?s]) = Returns (JArr [])" for j js
  proof -
    have "attempt B net ?u name tr = (Returned None, tr @ [Request ?u, Request ?s])"
      using that
      by (simp add: attempt_primary_empty [of net tr ?u "JArr []" B name, OF assms has_candidates_empty]
          has_candidates_empty)
    then show ?thesis by (rule for_attempt_returned)
  qed
  show ?thesis
    unfolding s using tr loop by (simp add: geocode_landmark_first)
qed

theorem fallback_once_then_absent_witness:
  "net_empty ([] @ [Request (primary_url sample_builtins sample_name sample_location)]) = Returns (JArr [])
   \<and> geocode_landmark sample_builtins net_empty sample_name sample_location 3 [] =
       (None, [Request (primary_url sample_builtins sample_name sample_location),
               Request (search_url sample_builtins (sample_name @ ustr '', California, USA''))])"
  using fallback_once_then_absent [of net_empty "[]" sample_builtins sample_name sample_location 3 0 "[]"]
  by (simp add: net_empty_def)

text \<open>
  Claim C6. When a query of an attempt, the primary or the fallback one, is answered with a
  non-empty candidate list whose first candidate has \<open>lat\<close> and \<open>lon\<close> strings that \<open>float\<close>
  reads, the resolver returns those two floats and the candidate's \<open>display_name\<close> as it
  is; the other candidates play no part.
\<close>

theorem result_from_first_candidate:
  assumes "returns_candidates B net (primary_url B name location) name tr (JObj kvs # cs) tr'"
    and "map_of kvs (ustr ''lat'') = Some (JStr a)" and "float_of_str B a = Some lat"
    and "map_of kvs (ustr ''lon'') = Some (JStr b)" and "float_of_str B b = Some lon"
    and "map_of kvs (ustr ''display_name'') = Some display_name"
  shows "for_attempt B net (primary_url B name location) name retries (k # rest) tr =
           (Some (lat, lon, display_name), tr')
     \<and> (0 < retries \<longrightarrow>
          geocode_landmark B net name location retries tr = (Some (lat, lon, display_name), tr'))"
proof -
  have "first_candidate B (JArr (JObj kvs # cs)) = Inr (lat, lon, display_name)"
    using assms(2-) by (simp add: first_candidate_def)
  then have "for_attempt B net (primary_url B name location) name retries (j # js) tr =
      (Some (lat, lon, display_name), tr')" for j js
    using for_attempt_on_candidates [OF assms(1)] by simp
  then show ?thesis
    by (simp add: geocode_landmark_first)
qed

theorem result_from_first_candidate_witness:
  "returns_candidates sample_builtins net_second
     (primary_url sample_builtins sample_name sample_location) sample_name []
     [sample_candidate]
     [Request (primary_url sample_builtins sample_name sample_location),
      Request (search_url sample_builtins (sample_name @ ustr '', California, USA''))]
   \<and> geocode_landmark sample_builtins net_second sample_name sample_location 3 [] =
       (Some (ustr ''40.2891'', ustr ''-124.3558'', JStr (ustr ''Lost Coast Trail, Humboldt County'')),
        [Request (primary_url sample_builtins sample_name sample_location),
         Request (search_url sample_builtins (sample_name @ ustr '', California, USA''))])"
proof -
  have rc: "returns_candidates sample_builtins net_second
     (primary_url sample_builtins sample_name sample_location) sample_name []
     (JObj [(ustr ''lat'', JStr (ustr ''40.2891'')), (ustr ''lon'', JStr (ustr ''-124.3558'')),
           (ustr ''display_name'', JStr (ustr ''Lost Coast Trail, Humboldt County''))] # [])
     [Request (primary_url sample_builtins sample_name sample_location),
      Request (search_url sample_builtins (sample_name @ ustr '', California, USA''))]"
    by (simp add: returns_candidates_def net_second_def sample_candidate_def fallback_url_def
        has_candidates_empty)
  have fl: "float_of_str sample_builtins (ustr ''40.2891'') = Some (ustr ''40.2891'')"
    "float_of_str sample_builtins (ustr ''-124.3558'') = Some (ustr ''-124.3558'')"
    by (simp_all add: sample_builtins_def ascii_digit_def ustr_def ord_def)
  have kv: "map_of [(ustr ''lat'', JStr (ustr ''40.2891'')), (ustr ''lon'', JStr (ustr ''-124.3558'')),
           (ustr ''display_name'', JStr (ustr ''Lost Coast Trail, Humboldt County''))] (ustr ''lat'')
        = Some (JStr (ustr ''40.2891''))"
    "map_of [(ustr ''lat'', JStr (ustr ''40.2891'')), (ustr ''lon'', JStr (ustr ''-124.3558'')),
           (ustr ''display_name'', JStr (ustr ''Lost Coast Trail, Humboldt County''))] (ustr ''lon'')
        = Some (JStr (ustr ''-124.3558''))"
    "map_of [(ustr ''lat'', JStr (ustr ''40.2891'')), (ustr ''lon'', JStr (ustr ''-124.3558'')),
           (ustr ''display_name'', JStr (ustr ''Lost Coast Trail, Humboldt County''))] (ustr ''display_name'')
        = Some (JStr (ustr ''Lost Coast Trail, Humboldt County''))"
    by (simp_all add: ustr_def ord_def)
  from result_from_first_candidate [OF rc kv(1) fl(1) kv(2) fl(2) kv(3), of 3 0 "[]"] rc
  show ?thesis
    by (simp add: sample_candidate_def)
qed

lemma py_range_three: "py_range 3 = [0, 1, 2]"
  by (simp add: py_range_def upt_conv_Cons numeral_3_eq_3)

text \<open>
  Claim C7. If the three attempts of a call with three retries each end in a URLError,
  HTTPError or TimeoutError, at the primary or at the fallback request, the resolver makes
  those three attempts and no more, sleeps 2 between one attempt and the next, does not
  sleep after the third and returns \<open>None\<close>, whatever the service would answer afterwards.
\<close>

theorem three_attempts_then_absent:
  assumes "attempt B net (primary_url B name location) name tr = (Raised e1, tr1)"
    and "transient e1"
    and "attempt B net (primary_url B name location) name (tr1 @ [Sleep 2]) = (Raised e2, tr2)"
    and "transient e2"
    and "attempt B net (primary_url B name location) name (tr2 @ [Sleep 2]) = (Raised e3, tr3)"
    and "transient e3"
  shows "geocode_landmark B net name location 3 tr = (None, tr3)
     \<and> (\<exists>a1 a2 a3.
          tr3 = tr @ a1 @ [Sleep 2] @ a2 @ [Sleep 2] @ a3
          \<and> (\<forall>a \<in> {a1, a2, a3}.
               a = [Request (primary_url B name location)]
               \<or> a = [Request (primary_url B name location),
                       Request (search_url B (name @ ustr '', California, USA''))]))"
proof -
  let ?u = "primary_url B name location"
  let ?s = "fallback_url B name"
  have s: "search_url B (name @ ustr '', California, USA'') = ?s"
    by (simp add: fallback_url_def)
  have step: "\<exists>a. t' = h @ a \<and> (a = [Request ?u] \<or> a = [Request ?u, Request ?s])"
    if "attempt B net ?u name h = (r, t')" for h r t'
    using attempt_trace [of B net ?u name h] that by auto
  obtain a1 where 1: "tr1 = tr @ a1" "a1 = [Request ?u] \<or> a1 = [Request ?u, Request ?s]"
    using step [OF assms(1)] by blast
  obtain a2 where 2: "tr2 = (tr1 @ [Sleep 2]) @ a2"
    "a2 = [Request ?u] \<or> a2 = [Request ?u, Request ?s]"
    using step [OF assms(3)] by blast
  obtain a3 where 3: "tr3 = (tr2 @ [Sleep 2]) @ a3"
    "a3 = [Request ?u] \<or> a3 = [Request ?u, Request ?s]"
    using step [OF assms(5)] by blast
  have run: "geocode_landmark B net name location 3 tr = (None, tr3)"
    using assms
    by (simp add: geocode_landmark_def py_range_three primary_url_def [symmetric])
  have "tr3 = tr @ a1 @ [Sleep 2] @ a2 @ [Sleep 2] @ a3"
    using 1(1) 2(1) 3(1) by simp
  with run 1(2) 2(2) 3(2) show ?thesis
    unfolding s by blast
qed

theorem three_attempts_then_absent_witness:
  "attempt sample_builtins net_recovering
       (primary_url sample_builtins sample_name sample_location) sample_name [] =
     (Raised URLError, [Request (primary_url sample_builtins sample_name sample_location)])
   \<and> transient URLError
   \<and> attempt sample_builtins net_recovering
       (primary_url sample_builtins sample_name sample_location) sample_name
       ([Request (primary_url sample_builtins sample_name sample_location)] @ [Sleep 2]) =
     (Raised TimeoutError,
      [Request (primary_url sample_builtins sample_name sample_location), Sleep 2,
       Request (primary_url sample_builtins sample_name sample_location),
       Request (search_url sample_builtins (sample_name @ ustr '', California, USA''))])
   \<and> transient TimeoutError
   \<and> attempt sample_builtins net_recovering
       (primary_url sample_builtins sample_name sample_location) sample_name
       ([Request (primary_url sample_builtins sample_name sample_location), Sleep 2,
         Request (primary_url sample_builtins sample_name sample_location),
         Request (search_url sample_builtins (sample_name @ ustr '', California, USA''))]
        @ [Sleep 2]) =
     (Raised HTTPError,
      [Request (primary_url sample_builtins sample_name sample_location), Sleep 2,
       Request (primary_url sample_builtins sample_name sample_location),
       Request (search_url sample_builtins (sample_name @ ustr '', California, USA'')), Sleep 2,
       Request (primary_url sample_builtins sample_name sample_location)])
   \<and> transient HTTPError
   \<and> net_recovering
       [Request (primary_url sample_builtins sample_name sample_location), Sleep 2,
        Request (primary_url sample_builtins sample_name sample_location),
        Request (search_url sample_builtins (sample_name @ ustr '', California, USA'')), Sleep 2,
        Request (primary_url sample_builtins sample_name sample_location), Sleep 2,
        Request (primary_url sample_builtins sample_name sample_location)] =
     Returns (JArr [sample_candidate])
   \<and> geocode_landmark sample_builtins net_recovering sample_name sample_location 3 [] =
     (None,
      [Request (primary_url sample_builtins sample_name sample_location), Sleep 2,
       Request (primary_url sample_builtins sample_name sample_location),
       Request (search_url sample_builtins (sample_name @ ustr '', California, USA'')), Sleep 2,
       Request (primary_url sample_builtins sample_name sample_location)])"
proof -
  let ?u = "primary_url sample_builtins sample_name sample_location"
  let ?s = "search_url sample_builtins (sample_name @ ustr '', California, USA'')"
  have a1: "attempt sample_builtins net_recovering ?u sample_name [] = (Raised URLError, [Request ?u])"
    by (simp add: attempt_def net_recovering_def)
  have a2: "attempt sample_builtins net_recovering ?u sample_name ([Request ?u] @ [Sleep 2]) =
      (Raised TimeoutError, [Request ?u, Sleep 2, Request ?u, Request ?s])"
    by (simp add: attempt_def net_recovering_def has_candidates_def)
  have a3: "attempt sample_builtins net_recovering ?u sample_name
        ([Request ?u, Sleep 2, Request ?u, Request ?s] @ [Sleep 2]) =
      (Raised HTTPError, [Request ?u, Sleep 2, Request ?u, Request ?s, Sleep 2, Request ?u])"
    by (simp add: attempt_def net_recovering_def)
  have t: "transient URLError" "transient TimeoutError" "transient HTTPError"
    by (simp_all add: transient_def)
  have r: "net_recovering [Request ?u, Sleep 2, Request ?u, Request ?s, Sleep 2, Request ?u,
      Sleep 2, Request ?u] = Returns (JArr [sample_candidate])"
    by (simp add: net_recovering_def)
  from three_attempts_then_absent [OF a1 t(1) a2 t(2) a3 t(3)] a1 a2 a3 t r
  show ?thesis
    by simp
qed

text \<open>
  Claim C8. If an attempt raises an exception that is not a URLError, HTTPError or
  TimeoutError, the resolver returns \<open>None\<close> with the trace as that attempt left it: no
  sleep, no further request, and no exception leaves the call.
\<close>

theorem unexpected_failure_is_terminal:
  assumes "attempt B net (primary_url B name location) name tr = (Raised e, tr')"
    and "\<not> transient e"
  shows "for_attempt B net (primary_url B name location) name retries (k # rest) tr = (None, tr')
     \<and> (0 < retries \<longrightarrow> geocode_landmark B net name location retries tr = (None, tr'))"
  using assms by (simp add: geocode_landmark_first)

theorem unexpected_failure_is_terminal_witness:
  "attempt sample_builtins net_garbled (primary_url sample_builtins sample_name sample_location)
       sample_name [] =
     (Raised JSONDecodeError, [Request (primary_url sample_builtins sample_name sample_location)])
   \<and> \<not> transient JSONDecodeError
   \<and> geocode_landmark sample_builtins net_garbled sample_name sample_location 3 [] =
       (None, [Request (primary_url sample_builtins sample_name sample_location)])"
proof -
  have a: "attempt sample_builtins net_garbled
       (primary_url sample_builtins sample_name sample_location) sample_name [] =
     (Raised JSONDecodeError, [Request (primary_url sample_builtins sample_name sample_location)])"
    by (simp add: attempt_def net_garbled_def)
  have t: "\<not> transient JSONDecodeError"
    by (simp add: transient_def)
  from unexpected_failure_is_terminal [OF a t, of 3 0 "[]"] a t show ?thesis
    by simp
qed

text \<open>
  Claim C10. When a query is answered with a non-empty candidate list whose first candidate
  is an object without a \<open>lat\<close> or a \<open>lon\<close> key, or with a \<open>lat\<close> or \<open>lon\<close> value that
  \<open>float\<close> refuses, the resolver returns \<open>None\<close> and makes no further request. When only
  \<open>display_name\<close> is missing, the resolver succeeds and the display name is the empty
  string.
\<close>

theorem malformed_first_candidate:
  assumes "returns_candidates B net (primary_url B name location) name tr (JObj kvs # cs) tr'"
  shows "(map_of kvs (ustr ''lat'') = None \<or> map_of kvs (ustr ''lon'') = None
          \<or> (\<exists>v e. (map_of kvs (ustr ''lat'') = Some v \<or> map_of kvs (ustr ''lon'') = Some v)
                \<and> float_of B v = Inl e) \<longrightarrow>
          for_attempt B net (primary_url B name location) name retries (k # rest) tr = (None, tr')
          \<and> (0 < retries \<longrightarrow> geocode_landmark B net name location retries tr = (None, tr')))
     \<and> (\<forall>v1 v2 lat lon.
          map_of kvs (ustr ''lat'') = Some v1 \<and> float_of B v1 = Inr lat
          \<and> map_of kvs (ustr ''lon'') = Some v2 \<and> float_of B v2 = Inr lon
          \<and> map_of kvs (ustr ''display_name'') = None \<longrightarrow>
          for_attempt B net (primary_url B name location) name retries (k # rest) tr =
            (Some (lat, lon, JStr []), tr')
          \<and> (0 < retries \<longrightarrow>
              geocode_landmark B net name location retries tr = (Some (lat, lon, JStr []), tr')))"
proof -
  let ?u = "primary_url B name location"
  have loop: "for_attempt B net ?u name retries (j # js) tr =
      ((case first_candidate B (JArr (JObj kvs # cs)) of Inl e \<Rightarrow> None | Inr g \<Rightarrow> Some g), tr')"
    for j js
    by (rule for_attempt_on_candidates [OF assms])
  have bad: "\<exists>e. first_candidate B (JArr (JObj kvs # cs)) = Inl e"
    if "map_of kvs (ustr ''lat'') = None \<or> map_of kvs (ustr ''lon'') = None
          \<or> (\<exists>v e. (map_of kvs (ustr ''lat'') = Some v \<or> map_of kvs (ustr ''lon'') = Some v)
                \<and> float_of B v = Inl e)"
    using that by (auto simp: first_candidate_def split: sum.splits option.splits)
  have good: "first_candidate B (JArr (JObj kvs # cs)) = Inr (lat, lon, JStr [])"
    if "map_of kvs (ustr ''lat'') = Some v1" "float_of B v1 = Inr lat"
      "map_of kvs (ustr ''lon'') = Some v2" "float_of B v2 = Inr lon"
      "map_of kvs (ustr ''display_name'') = None" for v1 v2 lat lon
    using that by (simp add: first_candidate_def)
  show ?thesis
  proof (intro conjI impI allI)
    assume "map_of kvs (ustr ''lat'') = None \<or> map_of kvs (ustr ''lon'') = None
          \<or> (\<exists>v e. (map_of kvs (ustr ''lat'') = Some v \<or> map_of kvs (ustr ''lon'') = Some v)
                \<and> float_of B v = Inl e)"
    then obtain e where e: "first_candidate B (JArr (JObj kvs # cs)) = Inl e"
      using bad by blast
    show "for_attempt B net ?u name retries (k # rest) tr = (None, tr')"
      using loop e by simp
    show "geocode_landmark B net name location retries tr = (None, tr')" if "0 < retries"
      using that loop e by (simp add: geocode_landmark_first)
  next
    fix v1 v2 lat lon
    assume "map_of kvs (ustr ''lat'') = Some v1 \<and> float_of B v1 = Inr lat
          \<and> map_of kvs (ustr ''lon'') = Some v2 \<and> float_of B v2 = Inr lon
          \<and> map_of kvs (ustr ''display_name'') = None"
    then have g: "first_candidate B (JArr (JObj kvs # cs)) = Inr (lat, lon, JStr [])"
      using good by blast
    show "for_attempt B net ?u name retries (k # rest) tr = (Some (lat, lon, JStr []), tr')"
      using loop g by simp
    show "geocode_landmark B net name location retries tr = (Some (lat, lon, JStr []), tr')"
      if "0 < retries"
      using that loop g by (simp add: geocode_landmark_first)
  qed
qed

theorem malformed_first_candidate_witness:
  "returns_candidates sample_builtins net_no_lon
     (primary_url sample_builtins sample_name sample_location) sample_name []
     [JObj [(ustr ''lat'', JStr (ustr ''40.2891''))]]
     [Request (primary_url sample_builtins sample_name sample_location)]
   \<and> geocode_landmark sample_builtins net_no_lon sample_name sample_location 3 [] =
       (None, [Request (primary_url sample_builtins sample_name sample_location)])
   \<and> returns_candidates sample_builtins net_unnamed
     (primary_url sample_builtins sample_name sample_location) sample_name []
     [JObj [(ustr ''lat'', JStr (ustr ''40.2891'')), (ustr ''lon'', JStr (ustr ''-124.3558''))]]
     [Request (primary_url sample_builtins sample_name sample_location)]
   \<and> geocode_landmark sample_builtins net_unnamed sample_name sample_location 3 [] =
       (Some (ustr ''40.2891'', ustr ''-124.3558'', JStr []),
        [Request (primary_url sample_builtins sample_name sample_location)])"
proof -
  have rc: "returns_candidates sample_builtins net_no_lon
     (primary_url sample_builtins sample_name sample_location) sample_name []
     (JObj [(ustr ''lat'', JStr (ustr ''40.2891''))] # [])
     [Request (primary_url sample_builtins sample_name sample_location)]"
    by (simp add: returns_candidates_def net_no_lon_def)
  have no_lon: "map_of [(ustr ''lat'', JStr (ustr ''40.2891''))] (ustr ''lon'')
      = (None :: unicode json option)"
    by (simp add: ustr_def ord_def)
  have rc': "returns_candidates sample_builtins net_unnamed
     (primary_url sample_builtins sample_name sample_location) sample_name []
     (JObj [(ustr ''lat'', JStr (ustr ''40.2891'')), (ustr ''lon'', JStr (ustr ''-124.3558''))] # [])
     [Request (primary_url sample_builtins sample_name sample_location)]"
    by (simp add: returns_candidates_def net_unnamed_def)
  have kv: "map_of [(ustr ''lat'', JStr (ustr ''40.2891'')), (ustr ''lon'', JStr (ustr ''-124.3558''))]
        (ustr ''lat'') = Some (JStr (ustr ''40.2891'') :: unicode json)"
    "map_of [(ustr ''lat'', JStr (ustr ''40.2891'')), (ustr ''lon'', JStr (ustr ''-124.3558''))]
        (ustr ''lon'') = Some (JStr (ustr ''-124.3558'') :: unicode json)"
    "map_of [(ustr ''lat'', JStr (ustr ''40.2891'')), (ustr ''lon'', JStr (ustr ''-124.3558''))]
        (ustr ''display_name'') = (None :: unicode json option)"
    by (simp_all add: ustr_def ord_def)
  have fl: "float_of sample_builtins (JStr (ustr ''40.2891'')) = Inr (ustr ''40.2891'')"
    "float_of sample_builtins (JStr (ustr ''-124.3558'')) = Inr (ustr ''-124.3558'')"
    by (simp_all add: sample_builtins_def ascii_digit_def ustr_def ord_def)
  from malformed_first_candidate [OF rc, of 3 0 "[]"] no_lon
  have 1: "geocode_landmark sample_builtins net_no_lon sample_name sample_location 3 [] =
       (None, [Request (primary_url sample_builtins sample_name sample_location)])"
    by simp
  from malformed_first_candidate [OF rc', of 3 0 "[]"] kv fl
  have 2: "geocode_landmark sample_builtins net_unnamed sample_name sample_location 3 [] =
       (Some (ustr ''40.2891'', ustr ''-124.3558'', JStr []),
        [Request (primary_url sample_builtins sample_name sample_location)])"
    by simp
  from rc rc' 1 2 show ?thesis
    by simp
qed

section \<open>The extractor: matching lines and skipped lines\<close>

lemma line_shape_iff: "line_shape d s \<longleftrightarrow> re_match d pattern s \<noteq> None"
proof
  assume "line_shape d s"
  then obtain m where "matches d pattern s 0 [] m"
    unfolding line_shape_def using line_parts_matches by blast
  then have "rmatch d pattern s 0 [] \<noteq> None"
    by (rule rmatch_complete)
  then show "re_match d pattern s \<noteq> None"
    by (auto simp: re_match_def)
next
  assume "re_match d pattern s \<noteq> None"
  then obtain gs where "re_match d pattern s = Some gs"
    by blast
  from re_match_parts [OF this] show "line_shape d s"
    unfolding line_shape_def by blast
qed

lemma landmark_of_match_groups:
  "landmark_of_match B [name, location, lat, lon] =
     (case float_of_str B lat of
        None \<Rightarrow> Inl ValueError
      | Some x \<Rightarrow>
          (case float_of_str B lon of
             None \<Rightarrow> Inl ValueError
           | Some y \<Rightarrow> Inr (strip name, strip location, x, y)))"
  by (simp add: landmark_of_match_def group_of_def to_float_def split: option.split)

lemma shape_line_match:
  assumes "line_shape (isdecimal B) (strip line)" and "float_total B"
  shows "\<exists>name location lat lon x y.
     re_match (isdecimal B) pattern (strip line) = Some [name, location, lat, lon]
     \<and> line_parts (isdecimal B) (strip line) name location lat lon
     \<and> float_of_str B lat = Some x \<and> float_of_str B lon = Some y
     \<and> landmark_of_match B [name, location, lat, lon] = Inr (strip name, strip location, x, y)"
proof -
  from assms(1) obtain gs where gs: "re_match (isdecimal B) pattern (strip line) = Some gs"
    unfolding line_shape_iff by blast
  from re_match_parts [OF gs] obtain name location lat lon where
    p: "gs = [name, location, lat, lon]" "line_parts (isdecimal B) (strip line) name location lat lon"
    by blast
  from p(2) have "decimal_shape (isdecimal B) lat" "decimal_shape (isdecimal B) lon"
    unfolding line_parts_def by blast+
  with assms(2) obtain x y where xy: "float_of_str B lat = Some x" "float_of_str B lon = Some y"
    unfolding float_total_def by blast
  then have "landmark_of_match B [name, location, lat, lon] = Inr (strip name, strip location, x, y)"
    by (simp add: landmark_of_match_groups)
  with gs p xy show ?thesis by blast
qed

lemma extract_loop_skip:
  "\<not> line_shape (isdecimal B) (strip line) \<Longrightarrow>
   extract_loop B (line # rest) landmarks = extract_loop B rest landmarks"
  by (simp add: line_shape_iff)

lemma extract_loop_append:
  "extract_loop B (xs @ ys) landmarks =
     (case extract_loop B xs landmarks of Inl e \<Rightarrow> Inl e | Inr ls \<Rightarrow> extract_loop B ys ls)"
  by (induction xs arbitrary: landmarks) (auto split: option.split sum.split)

lemma extract_loop_total:
  assumes "float_total B"
  shows "\<exists>ls. extract_loop B lines landmarks = Inr (landmarks @ ls)
     \<and> length ls = length (filter (\<lambda>l. line_shape (isdecimal B) (strip l)) lines)"
proof (induction lines arbitrary: landmarks)
  case Nil
  then show ?case by simp
next
  case (Cons line rest)
  show ?case
  proof (cases "line_shape (isdecimal B) (strip line)")
    case False
    with Cons [of landmarks] show ?thesis
      by (simp add: extract_loop_skip del: extract_loop.simps)
  next
    case True
    from shape_line_match [OF True assms] obtain name location lat lon x y where
      m: "re_match (isdecimal B) pattern (strip line) = Some [name, location, lat, lon]"
        "landmark_of_match B [name, location, lat, lon] = Inr (strip name, strip location, x, y)"
      by blast
    from Cons [of "landmarks @ [(strip name, strip location, x, y)]"]
    obtain ls where "extract_loop B rest (landmarks @ [(strip name, strip location, x, y)]) =
        Inr ((landmarks @ [(strip name, strip location, x, y)]) @ ls)"
      "length ls = length (filter (\<lambda>l. line_shape (isdecimal B) (strip l)) rest)"
      by blast
    with m True show ?thesis
      by (intro exI [of _ "(strip name, strip location, x, y) # ls"]) simp
  qed
qed


lemma float_total_sample: "float_total sample_builtins"
  unfolding float_total_def decimal_shape_def
  by (auto simp: sample_builtins_def ascii_digit_def list_all_iff)


lemma sample_lines:
  "split 10 sample_content =
     [ustr ''# Landmarks'', [], ustr ''  '' @ lost_coast_line, golden_gate_line, []]"
  by (simp add: sample_content_def lost_coast_line_def golden_gate_line_def ustr_def ord_def)

lemma sample_header: "re_match ascii_digit pattern (strip (ustr ''# Landmarks'')) = None"
  by (simp add: re_match_def pattern_def number_def ustr_def ord_def isspace_def strip_def
      ascii_digit_def)

lemma sample_blank: "re_match ascii_digit pattern (strip []) = None"
  by (simp add: re_match_def pattern_def number_def strip_def)

lemma sample_lost_coast:
  "re_match ascii_digit pattern (strip (ustr ''  '' @ lost_coast_line)) =
     Some [ustr ''Lost Coast Trail'', ustr ''King Range, Humboldt/Mendocino'',
           ustr ''40.28918'', ustr ''-124.35588'']"
  by (simp add: re_match_def pattern_def number_def lost_coast_line_def ustr_def ord_def
      isspace_def strip_def ascii_digit_def)

lemma sample_golden_gate:
  "re_match ascii_digit pattern (strip golden_gate_line) =
     Some [ustr ''Golden Gate, Park'', ustr ''San Francisco'', ustr ''37.7694'', ustr ''-122.4862'']"
  by (simp add: re_match_def pattern_def number_def golden_gate_line_def ustr_def ord_def
      isspace_def strip_def ascii_digit_def)

lemma sample_floats:
  "float_of_str sample_builtins (ustr ''40.28918'') = Some (ustr ''40.28918'')"
  "float_of_str sample_builtins (ustr ''-124.35588'') = Some (ustr ''-124.35588'')"
  "float_of_str sample_builtins (ustr ''37.7694'') = Some (ustr ''37.7694'')"
  "float_of_str sample_builtins (ustr ''-122.4862'') = Some (ustr ''-122.4862'')"
  by (simp_all add: sample_builtins_def ascii_digit_def ustr_def ord_def)

lemma sample_landmarks:
  "extract_landmarks_from_file sample_builtins sample_file (ustr ''in.txt'') =
     Inr [lost_coast, golden_gate]"
proof -
  have d: "isdecimal sample_builtins = ascii_digit"
    by (simp add: sample_builtins_def)
  have s: "strip (ustr ''Lost Coast Trail'') = ustr ''Lost Coast Trail''"
    "strip (ustr ''King Range, Humboldt/Mendocino'') = ustr ''King Range, Humboldt/Mendocino''"
    "strip (ustr ''Golden Gate, Park'') = ustr ''Golden Gate, Park''"
    "strip (ustr ''San Francisco'') = ustr ''San Francisco''"
    by (simp_all add: strip_def isspace_def ustr_def ord_def)
  show ?thesis
    by (simp add: extract_landmarks_from_file_def sample_file_def sample_lines d
        sample_header sample_blank sample_lost_coast sample_golden_gate
        landmark_of_match_groups sample_floats s lost_coast_def golden_gate_def)
qed









text \<open>
  Claim C4. A line whose stripped text does not have the landmark shape leaves the list of
  records as it is, wherever it stands in the file, and extraction raises nothing: on any
  list of lines, and on any file that could be read, it returns a list with as many
  records as there are lines of the shape.
\<close>

theorem nonmatching_lines_are_skipped:
  assumes "float_total B"
  shows "(\<not> line_shape (isdecimal B) (strip line) \<longrightarrow>
          extract_loop B (before @ line # rest) [] = extract_loop B (before @ rest) [])
     \<and> (\<exists>landmarks. extract_loop B lines [] = Inr landmarks
          \<and> length landmarks = length (filter (\<lambda>l. line_shape (isdecimal B) (strip l)) lines))
     \<and> (fs filename = Inr content \<longrightarrow>
          (\<exists>landmarks. extract_landmarks_from_file B fs filename = Inr landmarks
             \<and> length landmarks =
                 length (filter (\<lambda>l. line_shape (isdecimal B) (strip l)) (split 10 content))))"
proof (intro conjI impI)
  assume "\<not> line_shape (isdecimal B) (strip line)"
  then show "extract_loop B (before @ line # rest) [] = extract_loop B (before @ rest) []"
    by (simp add: extract_loop_append extract_loop_skip del: extract_loop.simps split: sum.split)
next
  show "\<exists>landmarks. extract_loop B lines [] = Inr landmarks
          \<and> length landmarks = length (filter (\<lambda>l. line_shape (isdecimal B) (strip l)) lines)"
    using extract_loop_total [OF assms, of lines "[]"] by simp
next
  assume "fs filename = Inr content"
  then show "\<exists>landmarks. extract_landmarks_from_file B fs filename = Inr landmarks
             \<and> length landmarks =
                 length (filter (\<lambda>l. line_shape (isdecimal B) (strip l)) (split 10 content))"
    using extract_loop_total [OF assms, of "split 10 content" "[]"]
    by (simp add: extract_landmarks_from_file_def)
qed

theorem nonmatching_lines_are_skipped_witness:
  "float_total sample_builtins
   \<and> \<not> line_shape (isdecimal sample_builtins) (strip (ustr ''# Landmarks''))
   \<and> extract_loop sample_builtins ([] @ ustr ''# Landmarks'' # [golden_gate_line]) [] =
       extract_loop sample_builtins ([] @ [golden_gate_line]) []
   \<and> sample_file (ustr ''in.txt'') = Inr sample_content
   \<and> (\<exists>landmarks. extract_landmarks_from_file sample_builtins sample_file (ustr ''in.txt'')
          = Inr landmarks \<and> length landmarks = 2)"
proof -
  have n: "\<not> line_shape (isdecimal sample_builtins) (strip (ustr ''# Landmarks''))"
    unfolding line_shape_iff by (simp add: sample_builtins_def sample_header)
  have f: "sample_file (ustr ''in.txt'') = Inr sample_content"
    by (simp add: sample_file_def)
  from nonmatching_lines_are_skipped [OF float_total_sample, of "ustr ''# Landmarks''" "[]"
      "[golden_gate_line]" "[]" sample_file "ustr ''in.txt''" sample_content]
    n f float_total_sample sample_landmarks
  show ?thesis
    by simp
qed

section \<open>The main program: outcomes and the CSV file\<close>

lemma replace_map: "replace old new s = map (\<lambda>c. if c = old then new else c) s"
  by (induction s) simp_all

lemma main_loop_resolve_all:
  "fst (main_loop B net landmarks results tr) =
     results @ map (outcome_of B) (resolve_all B net landmarks tr)"
proof (induction landmarks arbitrary: results tr)
  case Nil
  then show ?case by simp
next
  case (Cons lm landmarks)
  obtain name location existing_lat existing_lon where
    lm: "lm = (name, location, existing_lat, existing_lon)"
    by (cases lm) auto
  obtain g tr' where g: "geocode_landmark B net name location 3 tr = (g, tr')"
    by (cases "geocode_landmark B net name location 3 tr") auto
  show ?case
    unfolding lm using g Cons.IH
    by (simp add: outcome_of_def Let_def split: option.split prod.split)
qed

lemma resolve_all_landmarks: "map fst (resolve_all B net landmarks tr) = landmarks"
  by (induction B net landmarks tr rule: resolve_all.induct) (auto split: prod.split)

lemma landmark_of_outcome_of: "landmark_of (outcome_of B (lm, g)) = lm"
  by (cases lm; cases g) (auto simp: landmark_of_def outcome_of_def)

lemma write_rows_concat:
  "write_rows B rs f =
     f @ concat (map (\<lambda>r. replace (ord CHR '','') (ord CHR '';'') (r_name r) @ ustr '',''
          @ float_format B (fst (case r_new_coords r of Some c \<Rightarrow> c | None \<Rightarrow> r_existing_coords r))
          @ ustr '','' 
          @ float_format B (snd (case r_new_coords r of Some c \<Rightarrow> c | None \<Rightarrow> r_existing_coords r))
          @ [10]) rs)"
  by (induction rs arbitrary: f) (simp_all add: Let_def split: prod.split)

lemma row_of_outcome:
  "replace (ord CHR '','') (ord CHR '';'') (r_name (outcome_of B p)) @ ustr '',''
     @ float_format B (fst (case r_new_coords (outcome_of B p) of Some c \<Rightarrow> c
                            | None \<Rightarrow> r_existing_coords (outcome_of B p)))
     @ ustr '',''
     @ float_format B (snd (case r_new_coords (outcome_of B p) of Some c \<Rightarrow> c
                            | None \<Rightarrow> r_existing_coords (outcome_of B p)))
     @ [10] = csv_row B p"
  by (auto simp: outcome_of_def csv_row_def replace_map split: prod.split option.split)

lemma main_finished:
  assumes "extract_landmarks_from_file B fs (ustr ''in.txt'') = Inr landmarks"
  shows "main B fs net =
     Finished (map (outcome_of B) (resolve_all B net landmarks []))
       (snd (main_loop B net landmarks [] []))
       (Map.empty(ustr ''landmarks_coords.csv'' \<mapsto>
          ustr ''name,lat,lon'' @ [10] @ concat (map (csv_row B) (resolve_all B net landmarks []))))"
proof -
  have "write_rows B (map (outcome_of B) ps) f = f @ concat (map (csv_row B) ps)" for ps f
    unfolding write_rows_concat by (simp add: comp_def row_of_outcome)
  then show ?thesis
    using assms main_loop_resolve_all [of B net landmarks "[]" "[]"]
    by (auto simp: main_def Let_def split: prod.split)
qed

lemma main_aborted:
  "extract_landmarks_from_file B fs (ustr ''in.txt'') = Inl e \<Longrightarrow> main B fs net = Aborted e"
  by (simp add: main_def)

lemma py_range_3: "py_range 3 = [0, 1, 2]"
  by (simp add: py_range_def upt_conv_Cons numeral_3_eq_3)

lemma sample_resolved:
  "resolve_all sample_builtins net_mixed [lost_coast, golden_gate] [] =
     [(lost_coast,
       Some (ustr ''40.2891'', ustr ''-124.3558'', JStr (ustr ''Lost Coast Trail, Humboldt County''))),
      (golden_gate, None)]"
  by (simp add: lost_coast_def golden_gate_def geocode_landmark_def py_range_3 attempt_def
      net_mixed_def transient_def has_candidates_def first_candidate_def sample_candidate_def
      sample_builtins_def ascii_digit_def ustr_def ord_def Let_def)

text \<open>
  Claim C2. The list \<open>results\<close> that the main loop builds holds one record per extracted
  landmark, in the order of the landmarks: the record of the landmark with what the
  resolver returned for it, a result or none. Read back, the records give the landmarks'
  names, locations and existing coordinates in order, so the list is as long as the list
  of landmarks, whatever the geocoding service answers.
\<close>

theorem outcomes_follow_landmarks:
  "fst (main_loop B net landmarks [] tr) = map (outcome_of B) (resolve_all B net landmarks tr)
   \<and> map landmark_of (fst (main_loop B net landmarks [] tr)) = landmarks
   \<and> length (fst (main_loop B net landmarks [] tr)) = length landmarks
   \<and> (extract_landmarks_from_file B fs (ustr ''in.txt'') = Inr landmarks \<longrightarrow>
        (\<exists>results tr' files.
           main B fs net = Finished results tr' files \<and> map landmark_of results = landmarks
           \<and> length results = length landmarks))"
proof -
  have m: "map landmark_of (map (outcome_of B) (resolve_all B net landmarks t)) = landmarks" for t
  proof -
    have "map landmark_of (map (outcome_of B) ps) = map fst ps" for ps
      by (induction ps) (auto simp: landmark_of_outcome_of)
    then have "map landmark_of (map (outcome_of B) (resolve_all B net landmarks t)) =
        map fst (resolve_all B net landmarks t)" .
    then show ?thesis
      by (simp only: resolve_all_landmarks)
  qed
  have l: "length (resolve_all B net landmarks t) = length landmarks" for t
    using resolve_all_landmarks [of B net landmarks t] by (metis length_map)
  show ?thesis
    using m l by (auto simp: main_loop_resolve_all main_finished)
qed

theorem outcomes_follow_landmarks_witness:
  "extract_landmarks_from_file sample_builtins sample_file (ustr ''in.txt'') =
     Inr [lost_coast, golden_gate]
   \<and> (\<exists>results tr files.
        main sample_builtins sample_file net_mixed = Finished results tr files
        \<and> map landmark_of results = [lost_coast, golden_gate]
        \<and> map r_new_coords results = [Some (ustr ''40.2891'', ustr ''-124.3558''), None])"
proof -
  have "map r_new_coords (map (outcome_of sample_builtins)
      (resolve_all sample_builtins net_mixed [lost_coast, golden_gate] [])) =
      [Some (ustr ''40.2891'', ustr ''-124.3558''), None]"
    unfolding sample_resolved by (simp add: outcome_of_def lost_coast_def golden_gate_def)
  with outcomes_follow_landmarks [of sample_builtins net_mixed "[lost_coast, golden_gate]" "[]"
      sample_file]
    main_finished [OF sample_landmarks, of net_mixed] sample_landmarks
  show ?thesis
    by simp
qed

text \<open>
  Claim C9. The text written to \<open>landmarks_coords.csv\<close> is the line \<open>name,lat,lon\<close>
  followed by one row per landmark in landmark order; the row holds the name with every
  comma replaced by a semicolon, then the new coordinates when the resolver returned a
  result and the existing ones otherwise. The name \<open>Golden Gate, Park\<close> is written
  \<open>Golden Gate; Park\<close>.
\<close>

theorem csv_artifact_rows:
  assumes "extract_landmarks_from_file B fs (ustr ''in.txt'') = Inr landmarks"
  shows "\<exists>results tr files.
     main B fs net = Finished results tr files
     \<and> files (ustr ''landmarks_coords.csv'') =
         Some (ustr ''name,lat,lon'' @ [10]
               @ concat (map (csv_row B) (resolve_all B net landmarks [])))
     \<and> map fst (resolve_all B net landmarks []) = landmarks
     \<and> csv_row B ((ustr ''Golden Gate, Park'', location, lat, lon), None) =
         ustr ''Golden Gate; Park'' @ ustr '','' @ float_format B lat @ ustr '',''
           @ float_format B lon @ [10]"
  using main_finished [OF assms, of net]
  by (simp add: resolve_all_landmarks csv_row_def ustr_def ord_def)

theorem csv_artifact_rows_witness:
  "extract_landmarks_from_file sample_builtins sample_file (ustr ''in.txt'') =
     Inr [lost_coast, golden_gate]
   \<and> (\<exists>results tr files.
        main sample_builtins sample_file net_mixed = Finished results tr files
        \<and> files (ustr ''landmarks_coords.csv'') =
            Some (ustr ''name,lat,lon'' @ [10]
                  @ ustr ''Lost Coast Trail,40.2891,-124.3558'' @ [10]
                  @ ustr ''Golden Gate; Park,37.7694,-122.4862'' @ [10]))"
proof -
  have "concat (map (csv_row sample_builtins)
      (resolve_all sample_builtins net_mixed [lost_coast, golden_gate] [])) =
      ustr ''Lost Coast Trail,40.2891,-124.3558'' @ [10]
        @ ustr ''Golden Gate; Park,37.7694,-122.4862'' @ [10]"
    unfolding sample_resolved
    by (simp add: csv_row_def lost_coast_def golden_gate_def sample_builtins_def ustr_def ord_def)
  with csv_artifact_rows [OF sample_landmarks, where net = net_mixed and location = "[]" and lat = "[]"
      and lon = "[]"] sample_landmarks
  show ?thesis
    by auto
qed

text \<open>
  Claim C1, on the code. A run that finishes writes \<open>landmarks_coords.csv\<close> and nothing
  else: \<open>output_file\<close> is bound to \<open>landmarks_with_coords.json\<close> and never opened, so the
  JSON report is not among the files written.
\<close>

theorem json_report_not_written:
  assumes "main B fs net = Finished results tr files"
  shows "files (ustr ''landmarks_with_coords.json'') = None
     \<and> dom files = {ustr ''landmarks_coords.csv''}"
proof -
  obtain landmarks where "extract_landmarks_from_file B fs (ustr ''in.txt'') = Inr landmarks"
    using assms by (cases "extract_landmarks_from_file B fs (ustr ''in.txt'')")
      (auto simp: main_aborted)
  from main_finished [OF this, of net] assms show ?thesis
    by (auto simp: ustr_def ord_def)
qed

theorem json_report_not_written_witness:
  "\<exists>results tr files.
     main sample_builtins sample_file net_mixed = Finished results tr files
     \<and> files (ustr ''landmarks_with_coords.json'') = None
     \<and> files (ustr ''landmarks_coords.csv'') \<noteq> None"
proof -
  obtain results tr files where
    m: "main sample_builtins sample_file net_mixed = Finished results tr files"
    using main_finished [OF sample_landmarks] by blast
  from json_report_not_written [OF m] m show ?thesis
    by auto
qed

end
